theory Spec2Isabelle
  imports Main
begin

unbundle bit_operations_syntax

section \<open>Values, types and value nodes\<close>

text \<open>
  The operation node of the MIL dataflow graph
  (\<^verbatim>\<open>coremltools/converters/mil/mil/operation.py\<close>).
  Python objects that are shared and mutated (the \<^verbatim>\<open>Var\<close>s) live in an explicit
  store; every \<^verbatim>\<open>raise\<close> of the source is an \<open>Inl\<close> of the result.
\<close>

type_synonym var_id = nat
type_synonym op_id = nat

text \<open>
  An entry of a value array: a concrete number, an unresolved (sympy) symbol, or the
  floating-point value that is not a number.
\<close>

datatype elem = Conc int | Symb string | NaN

text \<open>
  A Python value carried by a node: a numpy array (its shape and its flattened entries,
  row-major) or a plain Python list (what \<^verbatim>\<open>mil_list.ls\<close> holds).
\<close>

datatype pyval = Array "nat list" "elem list" | PyList "elem list"

text \<open>What a kind's \<^verbatim>\<open>value_inference\<close> hands back for one output.\<close>

datatype retval = Plain pyval | MilList "elem list"

text \<open>A Python function returns one object or a tuple of them.\<close>

datatype 'a ret = Single 'a | Tuple "'a list"

datatype dim = Dim nat | SymDim string

datatype dtype = Int32 | Fp32 | Bool | Str | Complex64

datatype mil_type =
    Unknown
  | Scalar dtype
  | Tensor dtype "dim list"
  | ListT mil_type nat bool

datatype error =
    UnknownInput string
  | UnknownInputKey string
  | TypeDomainNotDefined string
  | RequiredInputMissing string
  | IncompatibleSubtype
  | OutputTypeChanges "string option"
  | ValueInferenceDiffers "string option"
  | ListRankUnsupported nat
  | BroadcastError
  | NotImplementedError
  | AttributeError
  | TypeError
  | IndexError
  | KeyError string
  | OtherError string

text \<open>
  The classes of \<^verbatim>\<open>var.py\<close>: \<^verbatim>\<open>Var\<close>, \<^verbatim>\<open>ListVar\<close> (element type, initial
  length, dynamic-length flag), \<^verbatim>\<open>ComplexVar\<close> (real and imaginary data) and
  \<^verbatim>\<open>InternalVar\<close>.
\<close>

datatype var_class =
    PlainVar
  | ListVar mil_type nat bool
  | ComplexVar "pyval option" "pyval option"
  | InternalVar

text \<open>
  Modelled from the spec: the class \<^verbatim>\<open>Var\<close> (\<^verbatim>\<open>var.py\<close> is not among the
  sources). A Value Node has a name, a declared symbolic type, an optional value
  (\<^verbatim>\<open>_sym_val\<close>: an instance of a builtin type whose \<^verbatim>\<open>.val\<close> is the Python
  value), its producer, the set of its consumers, and the marker that re-inference
  propagates (\<open>nonreplaceable_vars_upstream\<close>).
\<close>

record var =
  var_name :: "string option"
  sym_type :: mil_type
  sym_val_obj :: "(mil_type \<times> pyval) option"
  child_ops :: "op_id set"
  producer :: "op_id option"
  op_output_idx :: "nat option"
  var_cls :: var_class
  nonreplaceable_vars_upstream :: "var_id set"

text \<open>
  Modelled from the spec: \<^verbatim>\<open>is_symbolic\<close> and \<^verbatim>\<open>any_symbolic\<close> of the symbolic
  algebra (\<^verbatim>\<open>types/symbolic.py\<close> is not among the sources): an entry is symbolic when
  it is an unresolved symbol, a value when one of its entries is, and \<^verbatim>\<open>None\<close> is not.
\<close>

fun is_symbolic :: "elem \<Rightarrow> bool" where
  "is_symbolic (Symb _) = True"
| "is_symbolic _ = False"

fun entries :: "pyval \<Rightarrow> elem list" where
  "entries (Array sh xs) = xs"
| "entries (PyList xs) = xs"

definition any_symbolic :: "pyval option \<Rightarrow> bool" where
  "any_symbolic v = (case v of None \<Rightarrow> False | Some a \<Rightarrow> list_ex is_symbolic (entries a))"

text \<open>
  Modelled from the spec: the properties \<^verbatim>\<open>Var.sym_val\<close> (the Python value of
  \<^verbatim>\<open>_sym_val\<close>, or \<^verbatim>\<open>None\<close>) and \<^verbatim>\<open>Var.val\<close> (the materialized value: present
  only when the value is there and holds no unresolved symbol).
\<close>

definition sym_val :: "var \<Rightarrow> pyval option" where
  "sym_val v = map_option snd (sym_val_obj v)"

definition val :: "var \<Rightarrow> pyval option" where
  "val v = (if sym_val_obj v = None \<or> any_symbolic (sym_val v) then None else sym_val v)"

section \<open>The operation and its kind\<close>

text \<open>What a slot holds: a Var, a tuple of Vars, or another object (a Python function).\<close>

datatype binding = BVar var_id | BTuple "var_id list" | BOther

datatype input_class = TensorInputType | TupleInputType | OtherInputType

record input_type =
  optional :: bool
  in_class :: input_class
  type_domain :: "dtype list"
  type_domain_id :: string

text \<open>
  The state an \<^verbatim>\<open>Operation\<close> method works on: the store of Vars, the next free
  address, and the fields of \<^verbatim>\<open>self\<close>. A slot of \<open>input_vars\<close> that is \<open>None\<close>
  holds Python's \<^verbatim>\<open>None\<close>; so does a name that is \<open>None\<close>.
\<close>

record state =
  heap :: "var_id \<Rightarrow> var"
  next_var :: var_id
  self_id :: op_id
  op_name :: "string option"
  input_types :: "(string \<times> input_type) list"
  input_vars :: "string \<Rightarrow> binding option"
  output_vars :: "var_id list option"

text \<open>What a kind's inference functions can see of a bound input.\<close>

datatype view = VVar mil_type "pyval option" | VTuple "(mil_type \<times> pyval option) list" | VOther

type_synonym inputs_view = "string \<Rightarrow> view option"

definition view_var :: "(var_id \<Rightarrow> var) \<Rightarrow> var_id \<Rightarrow> mil_type \<times> pyval option" where
  "view_var h i = (sym_type (h i), sym_val (h i))"

fun view_binding :: "(var_id \<Rightarrow> var) \<Rightarrow> binding \<Rightarrow> view" where
  "view_binding h (BVar i) = VVar (sym_type (h i)) (sym_val (h i))"
| "view_binding h (BTuple is) = VTuple (map (view_var h) is)"
| "view_binding h BOther = VOther"

definition inputs_of :: "state \<Rightarrow> inputs_view" where
  "inputs_of s = (\<lambda>n. map_option (view_binding (heap s)) (input_vars s n))"

text \<open>
  How a subclass defines \<^verbatim>\<open>value_inference\<close>: not at all (the base method raises
  \<^verbatim>\<open>NotImplementedError\<close>), decorated with \<^verbatim>\<open>@precondition(allow=...)\<close>, or bare.
\<close>

datatype value_impl =
    NotImplementedVI
  | Decorated nat "inputs_view \<Rightarrow> error + retval option ret"
  | Bare "inputs_view \<Rightarrow> error + retval option ret"

text \<open>
  The subclass of \<^verbatim>\<open>Operation\<close>: its name, its input contract, its type domains,
  and the methods it overrides. \<open>output_names\<close> is \<open>None\<close> when the subclass leaves the base method, which
  raises \<^verbatim>\<open>NotImplementedError\<close>. \<open>complex_data\<close> stands for the attributes
  \<^verbatim>\<open>real_data\<close> and \<^verbatim>\<open>imag_data\<close> of the kind \<^verbatim>\<open>complex\<close>, \<open>None\<close> when the
  operation has no such attributes (reading them raises \<^verbatim>\<open>AttributeError\<close>).
\<close>

record kind =
  op_type :: string
  input_spec :: "(string \<times> input_type) list"
  type_domains :: "(string \<times> dtype list) list"
  type_inference :: "inputs_view \<Rightarrow> error + mil_type ret"
  value_inference :: value_impl
  output_names :: "string ret option"
  complex_data :: "inputs_view \<Rightarrow> (pyval option \<times> pyval option) option"

text \<open>
  The collaborators of the operation that are not among the sources, taken as
  parameters: \<^verbatim>\<open>types.is_compatible_type\<close>, \<^verbatim>\<open>InputSpec.validate_inputs\<close>,
  numpy's \<^verbatim>\<open>real\<close> and \<^verbatim>\<open>imag\<close>, and the marker that
  \<^verbatim>\<open>Var._set_nonreplaceable_vars_upstream\<close> computes for a node.
\<close>

record env =
  is_compatible_type :: "mil_type \<Rightarrow> mil_type \<Rightarrow> bool"
  validate_inputs :: "state \<Rightarrow> (string \<times> binding option) list \<Rightarrow> error option"
  np_real :: "pyval \<Rightarrow> pyval"
  np_imag :: "pyval \<Rightarrow> pyval"
  upstream_marker :: "state \<Rightarrow> var_id \<Rightarrow> var_id set"

section \<open>The classification gate\<close>

definition VALUE :: nat where "VALUE = 1"
definition SYMBOL :: nat where "SYMBOL = 2"
definition NONE :: nat where "NONE = 4"
definition ALL_flags :: nat where "ALL_flags = 7"

type_synonym bits = "bool \<times> bool \<times> bool"

definition process :: "var \<Rightarrow> bits \<Rightarrow> bits" where
  "process v b = (case b of (has_value, has_symbol, has_none) \<Rightarrow>
     if any_symbolic (sym_val v) then (has_value, True, has_none)
     else if val v = None then (has_value, has_symbol, True)
     else (True, has_symbol, has_none))"

text \<open>
  The loop of \<^verbatim>\<open>wrapper\<close> over \<^verbatim>\<open>self._input_types.items()\<close>. Iterating over a
  slot that holds no tuple raises \<^verbatim>\<open>TypeError\<close>; reading \<^verbatim>\<open>sym_val\<close> of a slot
  that holds no Var raises \<^verbatim>\<open>AttributeError\<close>.
\<close>

fun classify :: "state \<Rightarrow> (string \<times> input_type) list \<Rightarrow> bits \<Rightarrow> error + bits" where
  "classify s [] b = Inr b"
| "classify s ((in_name, in_type) # rest) b =
     (if optional in_type then classify s rest b
      else if in_class in_type = TupleInputType then
        (case input_vars s in_name of
           Some (BTuple vs) \<Rightarrow> classify s rest (foldl (\<lambda>b' v. process (heap s v) b') b vs)
         | _ \<Rightarrow> Inl TypeError)
      else
        (case input_vars s in_name of
           Some (BVar v) \<Rightarrow> classify s rest (process (heap s v) b)
         | _ \<Rightarrow> Inl AttributeError))"

definition wrapper ::
  "nat \<Rightarrow> (inputs_view \<Rightarrow> error + retval option ret) \<Rightarrow> state \<Rightarrow> error + retval option ret" where
  "wrapper allow func s =
     (case classify s (input_types s) (False, False, False) of
        Inl e \<Rightarrow> Inl e
      | Inr (HAS_VALUE, HAS_SYMBOL, HAS_NONE) \<Rightarrow>
          if HAS_VALUE \<and> \<not> (allow AND VALUE \<noteq> 0) then Inl NotImplementedError
          else if HAS_SYMBOL \<and> \<not> (allow AND SYMBOL \<noteq> 0) then Inl NotImplementedError
          else if HAS_NONE \<and> \<not> (allow AND NONE \<noteq> 0) then Inl NotImplementedError
          else func (inputs_of s))"

text \<open>The call \<^verbatim>\<open>self.value_inference()\<close>, dispatched on how the kind defines it.\<close>

definition call_value_inference :: "kind \<Rightarrow> state \<Rightarrow> error + retval option ret" where
  "call_value_inference k s =
     (case value_inference k of
        NotImplementedVI \<Rightarrow> Inl NotImplementedError
      | Decorated allow func \<Rightarrow> wrapper allow func s
      | Bare func \<Rightarrow> func (inputs_of s))"

fun as_tuple :: "'a ret \<Rightarrow> 'a list" where
  "as_tuple (Single x) = [x]"
| "as_tuple (Tuple xs) = xs"

fun unwrap :: "retval \<Rightarrow> pyval" where
  "unwrap (MilList ls) = PyList ls"
| "unwrap (Plain v) = v"

definition auto_val :: "kind \<Rightarrow> state \<Rightarrow> mil_type list \<Rightarrow> error + (mil_type \<times> pyval) option list" where
  "auto_val k s output_types =
     (case call_value_inference k s of
        Inl e \<Rightarrow> (if e = NotImplementedError then Inr (map (\<lambda>_. None) output_types) else Inl e)
      | Inr r \<Rightarrow>
          (let vals = as_tuple r in
           if list_ex (\<lambda>v. v = None) vals then Inr (map (\<lambda>_. None) output_types)
           else Inr (map (\<lambda>(t, v). Some (t, unwrap (the v))) (zip output_types vals))))"

section \<open>Comparing values\<close>

text \<open>
  numpy's \<^verbatim>\<open>np.any(a != b)\<close>. The operands are broadcast to a common shape: the
  shapes are aligned at their last axis, and two axes agree when they are equal or one
  of them is 1; shapes that do not agree raise. Entries are compared as Python's
  \<^verbatim>\<open>!=\<close> compares them: a symbol differs from every number and from every other
  symbol, and the value that is not a number differs from every entry, itself included.
  Two Python lists are compared as wholes, an item being equal to itself.
\<close>

fun ne :: "elem \<Rightarrow> elem \<Rightarrow> bool" where
  "ne NaN y = True"
| "ne x NaN = True"
| "ne x y = (x \<noteq> y)"

fun bshape :: "nat list \<Rightarrow> nat list \<Rightarrow> nat list option" where
  "bshape [] ys = Some ys"
| "bshape xs [] = Some xs"
| "bshape (x # xs) (y # ys) =
     (if x = y \<or> y = 1 then map_option ((#) x) (bshape xs ys)
      else if x = 1 then map_option ((#) y) (bshape xs ys)
      else None)"

definition broadcast_shapes :: "nat list \<Rightarrow> nat list \<Rightarrow> nat list option" where
  "broadcast_shapes a b = map_option rev (bshape (rev a) (rev b))"

definition chunks :: "nat \<Rightarrow> nat \<Rightarrow> 'a list \<Rightarrow> 'a list list" where
  "chunks d n xs = map (\<lambda>i. take n (drop (i * n) xs)) [0..<d]"

fun bcast :: "nat list \<Rightarrow> nat list \<Rightarrow> 'a list \<Rightarrow> 'a list" where
  "bcast (d # ds) (e # es) xs =
     (let parts = concat (map (bcast ds es) (chunks d (prod_list ds) xs))
      in if d = e then parts else concat (replicate e parts))"
| "bcast _ _ xs = xs"

definition broadcast_to :: "nat list \<Rightarrow> nat list \<Rightarrow> 'a list \<Rightarrow> 'a list" where
  "broadcast_to sh target xs = bcast (replicate (length target - length sh) 1 @ sh) target xs"

fun as_array :: "pyval \<Rightarrow> nat list \<times> elem list" where
  "as_array (Array sh xs) = (sh, xs)"
| "as_array (PyList xs) = ([length xs], xs)"

fun np_any_ne :: "pyval \<Rightarrow> pyval \<Rightarrow> error + bool" where
  "np_any_ne (PyList xs) (PyList ys) = Inr (xs \<noteq> ys)"
| "np_any_ne a b =
     (case (as_array a, as_array b) of ((sa, xs), (sb, ys)) \<Rightarrow>
        (case broadcast_shapes sa sb of
           None \<Rightarrow> Inl BroadcastError
         | Some t \<Rightarrow>
             Inr (list_ex (\<lambda>(x, y). ne x y) (zip (broadcast_to sa t xs) (broadcast_to sb t ys)))))"

text \<open>
  \<^verbatim>\<open>_is_compatible_symbolic_array\<close>: a Python list has no \<^verbatim>\<open>shape\<close>, so the first
  line raises \<^verbatim>\<open>AttributeError\<close> on it.
\<close>

fun is_compatible_symbolic_array :: "pyval \<Rightarrow> pyval \<Rightarrow> error + bool" where
  "is_compatible_symbolic_array (Array sa a) (Array sb b) =
     (if \<not> sa = sb then Inr False
      else Inr (list_all (\<lambda>(t, v). \<not> (\<not> is_symbolic t \<and> \<not> is_symbolic v \<and> ne t v)) (zip a b)))"
| "is_compatible_symbolic_array _ _ = Inl AttributeError"

section \<open>Type and value inference\<close>

text \<open>Python's \<^verbatim>\<open>str(i)\<close> of a natural number.\<close>

definition digit :: "nat \<Rightarrow> char" where
  "digit n = char_of (48 + n)"

fun str :: "nat \<Rightarrow> string" where
  "str n = (if n < 10 then [digit n] else str (n div 10) @ [digit (n mod 10)])"

declare str.simps [simp del]

definition get_output_names :: "kind \<Rightarrow> mil_type list \<Rightarrow> string list" where
  "get_output_names k output_types =
     (case output_names k of
        Some r \<Rightarrow> as_tuple r
      | None \<Rightarrow>
          if length output_types > 1 then map str [0..<length output_types]
          else [[]])"

fun is_list :: "mil_type \<Rightarrow> bool" where
  "is_list (ListT _ _ _) = True"
| "is_list _ = False"

fun is_complex_tensor :: "mil_type \<Rightarrow> bool" where
  "is_complex_tensor (Tensor Complex64 _) = True"
| "is_complex_tensor _ = False"

fun is_py_list :: "pyval \<Rightarrow> bool" where
  "is_py_list (PyList _) = True"
| "is_py_list _ = False"

text \<open>
  Modelled from the spec: \<^verbatim>\<open>ListVar.elem_shape\<close> (\<^verbatim>\<open>var.py\<close> is not among the
  sources): unknown for an unknown element type, the shape of a tensor element, the
  empty shape of a scalar element.
\<close>

fun elem_shape :: "var_class \<Rightarrow> dim list option" where
  "elem_shape (ListVar Unknown _ _) = None"
| "elem_shape (ListVar (Tensor _ sh) _ _) = Some sh"
| "elem_shape (ListVar _ _ _) = Some []"
| "elem_shape _ = None"

text \<open>
  The body of the loop that creates the output Vars: the name, then the Var of the class
  that the type asks for. \<^verbatim>\<open>None + "_"\<close> raises \<^verbatim>\<open>TypeError\<close>, and
  \<^verbatim>\<open>sym_val.val\<close> of a missing value raises \<^verbatim>\<open>AttributeError\<close>.
\<close>

definition new_var ::
  "env \<Rightarrow> kind \<Rightarrow> state \<Rightarrow> nat \<Rightarrow> string \<Rightarrow> mil_type \<Rightarrow> (mil_type \<times> pyval) option \<Rightarrow> error + var" where
  "new_var e k s i n sym_type' sym_val' =
     (if n \<noteq> [] \<and> op_name s = None then Inl TypeError
      else
        let name = (if n \<noteq> [] then Some (the (op_name s) @ ''_'' @ n) else op_name s);
            v0 = \<lparr>var_name = name, sym_type = sym_type', sym_val_obj = sym_val',
                  child_ops = {}, producer = Some (self_id s), op_output_idx = Some i,
                  var_cls = PlainVar, nonreplaceable_vars_upstream = {}\<rparr>
        in
        (case sym_type' of
           ListT elem_type init_length dynamic_length \<Rightarrow>
             (let new = v0\<lparr>sym_val_obj :=
                            (if sym_val' \<noteq> None \<and> is_py_list (snd (the sym_val')) then sym_val' else None),
                          var_cls := ListVar elem_type init_length dynamic_length\<rparr>
              in case elem_shape (var_cls new) of
                   None \<Rightarrow> Inr new
                 | Some sh \<Rightarrow> if length sh \<ge> 5 then Inl (ListRankUnsupported (length sh)) else Inr new)
         | _ \<Rightarrow>
             if is_complex_tensor sym_type' then
               (if op_type k = ''complex'' then
                  (case complex_data k (inputs_of s) of
                     None \<Rightarrow> Inl AttributeError
                   | Some (real_data, imag_data) \<Rightarrow> Inr (v0\<lparr>var_cls := ComplexVar real_data imag_data\<rparr>))
                else if op_type k = ''const'' then
                  (case sym_val' of
                     None \<Rightarrow> Inl AttributeError
                   | Some (_, x) \<Rightarrow> Inr (v0\<lparr>var_cls := ComplexVar (Some (np_real e x)) (Some (np_imag e x))\<rparr>))
                else Inr (v0\<lparr>var_cls := ComplexVar None None\<rparr>))
             else Inr v0))"

definition outputs :: "state \<Rightarrow> var_id list" where
  "outputs s = (case output_vars s of None \<Rightarrow> [] | Some vs \<Rightarrow> vs)"

definition append_output :: "state \<Rightarrow> var \<Rightarrow> state" where
  "append_output s v =
     s\<lparr>heap := (heap s)(next_var s := v),
       next_var := Suc (next_var s),
       output_vars := Some (outputs s @ [next_var s])\<rparr>"

text \<open>
  The loop over \<^verbatim>\<open>zip(output_names, output_types, output_vals)\<close>. It returns the
  state it has reached together with the exception that stopped it, if one did: an
  exception leaves the Vars appended so far in \<^verbatim>\<open>self._output_vars\<close>.
\<close>

fun create_outputs ::
  "env \<Rightarrow> kind \<Rightarrow> state \<Rightarrow> nat \<Rightarrow> (string \<times> mil_type \<times> (mil_type \<times> pyval) option) list
     \<Rightarrow> state \<times> error option" where
  "create_outputs e k s i [] = (s, None)"
| "create_outputs e k s i ((n, sym_type', sym_val') # rest) =
     (case new_var e k s i n sym_type' sym_val' of
        Inl err \<Rightarrow> (s, Some err)
      | Inr v \<Rightarrow> create_outputs e k (append_output s v) (Suc i) rest)"

text \<open>
  \<^verbatim>\<open>for o in self.outputs: o._set_nonreplaceable_vars_upstream()\<close>. Modelled from
  the spec: the call propagates a marker and touches nothing else of a Var.
\<close>

definition set_nonreplaceable_vars_upstream :: "env \<Rightarrow> state \<Rightarrow> var_id \<Rightarrow> state" where
  "set_nonreplaceable_vars_upstream e s o' =
     s\<lparr>heap := (heap s)(o' := (heap s o')\<lparr>nonreplaceable_vars_upstream := upstream_marker e s o'\<rparr>)\<rparr>"

definition mark_outputs :: "env \<Rightarrow> state \<Rightarrow> state" where
  "mark_outputs e s = foldl (set_nonreplaceable_vars_upstream e) s (outputs s)"

text \<open>
  The check of one inferred value against the value of the existing output
  (\<^verbatim>\<open>if sym_val is not None and out_var.sym_val is not None: ...\<close>).
\<close>

definition check_value ::
  "bool \<Rightarrow> state \<Rightarrow> var_id \<Rightarrow> (mil_type \<times> pyval) option \<Rightarrow> error + state" where
  "check_value overwrite_output s o' sym_val' =
     (case (sym_val', sym_val (heap s o')) of
        (Some (t, new), Some old) \<Rightarrow>
          (case np_any_ne new old of
             Inl err \<Rightarrow> Inl err
           | Inr differs \<Rightarrow>
               if differs then
                 (if overwrite_output
                  then Inr (s\<lparr>heap := (heap s)(o' := (heap s o')\<lparr>sym_val_obj := sym_val'\<rparr>)\<rparr>)
                  else
                    (case is_compatible_symbolic_array new old of
                       Inl err \<Rightarrow> Inl err
                     | Inr ok \<Rightarrow>
                         if \<not> ok then Inl (ValueInferenceDiffers (var_name (heap s o')))
                         else Inr s))
               else Inr s)
      | _ \<Rightarrow> Inr s)"

text \<open>The body of the loop over the existing outputs, for output \<open>i\<close>.\<close>

definition reinfer_output ::
  "env \<Rightarrow> bool \<Rightarrow> state \<Rightarrow> nat \<Rightarrow> mil_type \<Rightarrow> (mil_type \<times> pyval) option \<Rightarrow> error + state" where
  "reinfer_output e overwrite_output s i sym_type' sym_val' =
     (if i \<ge> length (outputs s) then Inl IndexError
      else
        let o' = outputs s ! i in
        if \<not> overwrite_output \<and> \<not> is_compatible_type e sym_type' (sym_type (heap s o'))
        then Inl (OutputTypeChanges (var_name (heap s o')))
        else
          let s1 = (if overwrite_output
                    then s\<lparr>heap := (heap s)(o' := (heap s o')\<lparr>sym_type := sym_type', sym_val_obj := sym_val'\<rparr>)\<rparr>
                    else s)
          in (case check_value overwrite_output s1 o' sym_val' of
                Inl err \<Rightarrow> Inl err
              | Inr s2 \<Rightarrow> Inr (mark_outputs e s2)))"

fun check_outputs ::
  "env \<Rightarrow> bool \<Rightarrow> state \<Rightarrow> nat \<Rightarrow> (mil_type \<times> (mil_type \<times> pyval) option) list \<Rightarrow> error + state" where
  "check_outputs e overwrite_output s i [] = Inr s"
| "check_outputs e overwrite_output s i ((sym_type', sym_val') # rest) =
     (case reinfer_output e overwrite_output s i sym_type' sym_val' of
        Inl err \<Rightarrow> Inl err
      | Inr s' \<Rightarrow> check_outputs e overwrite_output s' (Suc i) rest)"

definition type_value_inference :: "env \<Rightarrow> kind \<Rightarrow> bool \<Rightarrow> state \<Rightarrow> error + state" where
  "type_value_inference e k overwrite_output s =
     (case type_inference k (inputs_of s) of
        Inl err \<Rightarrow> Inl err
      | Inr r \<Rightarrow>
          (let output_types = as_tuple r in
           case auto_val k s output_types of
             Inl err \<Rightarrow> Inl err
           | Inr output_vals \<Rightarrow>
               (let names = get_output_names k output_types in
                if output_vars s = None then
                  (case create_outputs e k (s\<lparr>output_vars := Some []\<rparr>) 0
                          (zip names (zip output_types output_vals)) of
                     (s', None) \<Rightarrow> Inr s'
                   | (s', Some err) \<Rightarrow> Inl err)
                else check_outputs e overwrite_output s 0 (zip output_types output_vals))))"

section \<open>Binding and rebinding inputs\<close>

text \<open>
  Modelled from the spec: \<^verbatim>\<open>Var.add_child_op\<close> and \<^verbatim>\<open>Var.remove_child_op\<close>
  (\<^verbatim>\<open>var.py\<close> is not among the sources): attaching adds this operation to the node's
  consumer set, detaching removes it from the set.
\<close>

definition add_child_op :: "state \<Rightarrow> var_id \<Rightarrow> state" where
  "add_child_op s v =
     s\<lparr>heap := (heap s)(v := (heap s v)\<lparr>child_ops := insert (self_id s) (child_ops (heap s v))\<rparr>)\<rparr>"

definition remove_child_op :: "state \<Rightarrow> var_id \<Rightarrow> bool \<Rightarrow> state" where
  "remove_child_op s v no_check_var_types =
     s\<lparr>heap := (heap s)(v := (heap s v)\<lparr>child_ops := child_ops (heap s v) - {self_id s}\<rparr>)\<rparr>"

definition check_and_detach :: "env \<Rightarrow> state \<Rightarrow> var_id \<Rightarrow> var_id \<Rightarrow> bool \<Rightarrow> error + state" where
  "check_and_detach e s v_new v_old no_check_var_types =
     (if \<not> is_compatible_type e (sym_type (heap s v_new)) (sym_type (heap s v_old))
         \<and> \<not> no_check_var_types
      then Inl IncompatibleSubtype
      else Inr (remove_child_op s v_old no_check_var_types))"

text \<open>\<^verbatim>\<open>for v_old, v_new in zip(existing_input_var, var): check_and_detach(...)\<close>\<close>

fun detach_each :: "env \<Rightarrow> state \<Rightarrow> bool \<Rightarrow> (var_id \<times> var_id) list \<Rightarrow> error + state" where
  "detach_each e s no_check_var_types [] = Inr s"
| "detach_each e s no_check_var_types ((v_old, v_new) # rest) =
     (case check_and_detach e s v_new v_old no_check_var_types of
        Inl err \<Rightarrow> Inl err
      | Inr s' \<Rightarrow> detach_each e s' no_check_var_types rest)"

text \<open>
  The first half of the loop body of \<^verbatim>\<open>_validate_and_set_inputs\<close>: remove this
  operation from the existing input of the slot. \<^verbatim>\<open>zip\<close> over something that is not
  a sequence raises \<^verbatim>\<open>TypeError\<close>; \<^verbatim>\<open>sym_type\<close> of something that is not a Var
  raises \<^verbatim>\<open>AttributeError\<close>.
\<close>

definition detach_existing :: "env \<Rightarrow> bool \<Rightarrow> state \<Rightarrow> string \<Rightarrow> binding option \<Rightarrow> error + state" where
  "detach_existing e no_check_var_types s name var' =
     (case input_vars s name of
        None \<Rightarrow> Inr s
      | Some (BTuple existing) \<Rightarrow>
          (case var' of
             Some (BTuple news) \<Rightarrow> detach_each e s no_check_var_types (zip existing news)
           | _ \<Rightarrow> Inl TypeError)
      | Some (BVar v_old) \<Rightarrow>
          (case var' of
             Some (BVar v_new) \<Rightarrow> check_and_detach e s v_new v_old no_check_var_types
           | _ \<Rightarrow> Inl AttributeError)
      | Some BOther \<Rightarrow> Inl AttributeError)"

text \<open>The second half: attach the new input and store it in the slot.\<close>

definition attach_new :: "state \<Rightarrow> string \<Rightarrow> binding option \<Rightarrow> state" where
  "attach_new s name var' =
     (let s' = (case var' of
                  Some (BVar v) \<Rightarrow> add_child_op s v
                | Some (BTuple vs) \<Rightarrow> foldl add_child_op s vs
                | _ \<Rightarrow> s)
      in s'\<lparr>input_vars := (input_vars s')(name := var')\<rparr>)"

fun set_each :: "env \<Rightarrow> bool \<Rightarrow> state \<Rightarrow> (string \<times> binding option) list \<Rightarrow> error + state" where
  "set_each e no_check_var_types s [] = Inr s"
| "set_each e no_check_var_types s ((name, var') # rest) =
     (case detach_existing e no_check_var_types s name var' of
        Inl err \<Rightarrow> Inl err
      | Inr s' \<Rightarrow> set_each e no_check_var_types (attach_new s' name var') rest)"

definition validate_and_set_inputs ::
  "env \<Rightarrow> state \<Rightarrow> (string \<times> binding option) list \<Rightarrow> bool \<Rightarrow> error + state" where
  "validate_and_set_inputs e s input_kvs no_check_var_types =
     (case find (\<lambda>key. key \<notin> set (map fst (input_types s))) (map fst input_kvs) of
        Some key \<Rightarrow> Inl (UnknownInputKey key)
      | None \<Rightarrow>
          (case validate_inputs e s input_kvs of
             Some err \<Rightarrow> Inl err
           | None \<Rightarrow> set_each e no_check_var_types s input_kvs))"

fun required_inputs_present :: "state \<Rightarrow> (string \<times> input_type) list \<Rightarrow> error + state" where
  "required_inputs_present s [] = Inr s"
| "required_inputs_present s ((name, input_type') # rest) =
     (if \<not> optional input_type' \<and> input_vars s name = None
      then Inl (RequiredInputMissing name)
      else required_inputs_present s rest)"

definition ensure_required_inputs :: "state \<Rightarrow> error + state" where
  "ensure_required_inputs s = required_inputs_present s (input_types s)"

definition set_inputs ::
  "env \<Rightarrow> kind \<Rightarrow> bool \<Rightarrow> bool \<Rightarrow> (string \<times> binding option) list \<Rightarrow> state \<Rightarrow> error + state" where
  "set_inputs e k no_check_var_types type_inference' input_kvs s =
     (case validate_and_set_inputs e s input_kvs no_check_var_types of
        Inl err \<Rightarrow> Inl err
      | Inr s1 \<Rightarrow>
          (case (if type_inference' \<and> \<not> no_check_var_types
                 then type_value_inference e k False s1 else Inr s1) of
             Inl err \<Rightarrow> Inl err
           | Inr s2 \<Rightarrow> ensure_required_inputs s2))"

section \<open>Construction\<close>

text \<open>
  A keyword argument of the constructor: \<^verbatim>\<open>None\<close>, a string, or something that can
  be bound to a slot.
\<close>

datatype pyobj = PyNone | PyStr string | PyBind binding

fun to_binding :: "pyobj \<Rightarrow> binding option" where
  "to_binding PyNone = None"
| "to_binding (PyStr _) = Some BOther"
| "to_binding (PyBind b) = Some b"

definition non_attributes :: "string list" where
  "non_attributes =
     [''name'', ''symbolic_datatype'', ''datatype'', ''symbolic_value'', ''value'', ''version'',
      ''before_op'', ''no_check_var_types'', ''enclosing_block'', ''scopes'']"

definition check_expected_inputs :: "state \<Rightarrow> (string \<times> pyobj) list \<Rightarrow> error option" where
  "check_expected_inputs s kwargs =
     (case find (\<lambda>k'. k' \<notin> set non_attributes \<and> k' \<notin> set (map fst (input_types s))) (map fst kwargs) of
        Some k' \<Rightarrow> Some (UnknownInput k')
      | None \<Rightarrow> None)"

text \<open>The loop that fills the empty type domains of the tensor inputs from the kind's table.\<close>

fun populate_type_domains ::
  "kind \<Rightarrow> (string \<times> input_type) list \<Rightarrow> error + (string \<times> input_type) list" where
  "populate_type_domains k [] = Inr []"
| "populate_type_domains k ((n, v) # rest) =
     (if in_class v = TensorInputType \<and> length (type_domain v) = 0
         \<and> map_of (type_domains k) (type_domain_id v) = None
      then Inl (TypeDomainNotDefined (type_domain_id v))
      else
        (case populate_type_domains k rest of
           Inl err \<Rightarrow> Inl err
         | Inr rest' \<Rightarrow>
             Inr ((n, if in_class v = TensorInputType \<and> length (type_domain v) = 0
                      then v\<lparr>type_domain := the (map_of (type_domains k) (type_domain_id v))\<rparr>
                      else v) # rest')))"

text \<open>
  \<^verbatim>\<open>Operation.__init__\<close>, on the store \<open>h\<close> of the Vars that exist, for the new
  operation \<open>sid\<close>. \<^verbatim>\<open>kwargs["enclosing_block"]\<close> and \<^verbatim>\<open>kwargs["scopes"]\<close> raise
  \<^verbatim>\<open>KeyError\<close> when the key is missing. \<open>init_inputs\<close> is the constructor up to and
  including \<^verbatim>\<open>self._validate_and_set_inputs(input_kv)\<close>; \<open>init\<close> adds its last line.
\<close>

definition init_inputs ::
  "env \<Rightarrow> kind \<Rightarrow> (var_id \<Rightarrow> var) \<Rightarrow> var_id \<Rightarrow> op_id \<Rightarrow> (string \<times> pyobj) list \<Rightarrow> error + state" where
  "init_inputs e k h nv sid kwargs =
     (let s0 = \<lparr>heap = h, next_var = nv, self_id = sid,
                op_name = (case map_of kwargs ''name'' of Some (PyStr n) \<Rightarrow> Some n | _ \<Rightarrow> None),
                input_types = input_spec k,
                input_vars = (\<lambda>_. None),
                output_vars = None\<rparr>
      in
      if map_of kwargs ''enclosing_block'' = None then Inl (KeyError ''enclosing_block'')
      else if map_of kwargs ''scopes'' = None then Inl (KeyError ''scopes'')
      else
        (case check_expected_inputs s0 kwargs of
           Some err \<Rightarrow> Inl err
         | None \<Rightarrow>
             (case populate_type_domains k (input_types s0) of
                Inl err \<Rightarrow> Inl err
              | Inr its \<Rightarrow>
                  (let s1 = s0\<lparr>input_types := its\<rparr>;
                       input_kv = map (\<lambda>(k', v). (k', to_binding v))
                                    (filter (\<lambda>(k', v). k' \<in> set (map fst (input_types s1)) \<and> v \<noteq> PyNone) kwargs)
                   in validate_and_set_inputs e s1 input_kv False))))"

definition init ::
  "env \<Rightarrow> kind \<Rightarrow> (var_id \<Rightarrow> var) \<Rightarrow> var_id \<Rightarrow> op_id \<Rightarrow> (string \<times> pyobj) list \<Rightarrow> error + state" where
  "init e k h nv sid kwargs =
     (case init_inputs e k h nv sid kwargs of
        Inl err \<Rightarrow> Inl err
      | Inr s \<Rightarrow> ensure_required_inputs s)"

section \<open>The specification's reading of the gate\<close>

text \<open>
  The gate as the specification words it: an input is Symbolic when its type or its
  value contains an unresolved symbol, Materialized when it carries a concrete value,
  Absent when neither.
\<close>

fun dim_symbolic :: "dim \<Rightarrow> bool" where
  "dim_symbolic (SymDim _) = True"
| "dim_symbolic (Dim _) = False"

fun type_has_symbol :: "mil_type \<Rightarrow> bool" where
  "type_has_symbol (Tensor _ sh) = list_ex dim_symbolic sh"
| "type_has_symbol (ListT t _ _) = type_has_symbol t"
| "type_has_symbol _ = False"

definition spec_process :: "var \<Rightarrow> bits \<Rightarrow> bits" where
  "spec_process v b = (case b of (has_value, has_symbol, has_none) \<Rightarrow>
     if type_has_symbol (sym_type v) \<or> any_symbolic (sym_val v) then (has_value, True, has_none)
     else if val v \<noteq> None then (True, has_symbol, has_none)
     else (has_value, has_symbol, True))"

text \<open>
  The required inputs of an operation, tuples expanded element by element, in the order
  of the contract.
\<close>

fun bound_vars :: "binding option \<Rightarrow> var_id list" where
  "bound_vars (Some (BVar v)) = [v]"
| "bound_vars (Some (BTuple vs)) = vs"
| "bound_vars _ = []"

definition required_vars :: "state \<Rightarrow> (string \<times> input_type) list \<Rightarrow> var_id list" where
  "required_vars s its =
     concat (map (\<lambda>(n, t). bound_vars (input_vars s n)) (filter (\<lambda>(n, t). \<not> optional t) its))"

text \<open>
  Symbolic compatibility of two arrays as the specification words it: the same shape,
  and equal entries (entries that \<^verbatim>\<open>!=\<close> does not tell apart) wherever both sides
  are concrete.
\<close>

definition symbolic_compatible :: "nat list \<Rightarrow> elem list \<Rightarrow> nat list \<Rightarrow> elem list \<Rightarrow> bool" where
  "symbolic_compatible sa a sb b \<longleftrightarrow>
     sa = sb \<and> (\<forall>i < min (length a) (length b).
                  \<not> is_symbolic (a ! i) \<and> \<not> is_symbolic (b ! i) \<longrightarrow> \<not> ne (a ! i) (b ! i))"

section \<open>A concrete operation: \<^verbatim>\<open>add\<close>\<close>

text \<open>
  The kind \<^verbatim>\<open>add\<close> of the specification's scenarios: two required tensor inputs
  \<^verbatim>\<open>x\<close> and \<^verbatim>\<open>y\<close>, an optional \<^verbatim>\<open>bias\<close>, a value inference that tolerates
  materialized inputs only.
\<close>

definition req_tensor :: input_type where
  "req_tensor = \<lparr>optional = False, in_class = TensorInputType, type_domain = [], type_domain_id = ''T''\<rparr>"

definition opt_tensor :: input_type where
  "opt_tensor = \<lparr>optional = True, in_class = TensorInputType, type_domain = [Int32], type_domain_id = ''T''\<rparr>"

fun add_elem :: "elem \<Rightarrow> elem \<Rightarrow> elem" where
  "add_elem (Conc a) (Conc b) = Conc (a + b)"
| "add_elem (Conc a) b = b"
| "add_elem a b = a"

definition add_values :: "inputs_view \<Rightarrow> error + retval option ret" where
  "add_values iv =
     (case (iv ''x'', iv ''y'') of
        (Some (VVar _ (Some (Array sh xs))), Some (VVar _ (Some (Array _ ys)))) \<Rightarrow>
           Inr (Single (Some (Plain (Array sh (map (\<lambda>(a, b). add_elem a b) (zip xs ys))))))
      | _ \<Rightarrow> Inr (Single None))"

definition add_kind :: kind where
  "add_kind =
     \<lparr>op_type = ''add'',
      input_spec = [(''x'', req_tensor), (''y'', req_tensor), (''bias'', opt_tensor)],
      type_domains = [(''T'', [Int32, Fp32])],
      type_inference = (\<lambda>iv. case iv ''x'' of Some (VVar t _) \<Rightarrow> Inr (Single t) | _ \<Rightarrow> Inl AttributeError),
      value_inference = Decorated VALUE add_values,
      output_names = None,
      complex_data = (\<lambda>_. None)\<rparr>"

definition plain_env :: env where
  "plain_env =
     \<lparr>is_compatible_type = (\<lambda>a b. a = b),
      validate_inputs = (\<lambda>_ _. None),
      np_real = (\<lambda>v. v),
      np_imag = (\<lambda>v. v),
      upstream_marker = (\<lambda>_ _. {})\<rparr>"

definition mk_var :: "string \<Rightarrow> mil_type \<Rightarrow> pyval option \<Rightarrow> var" where
  "mk_var n t v =
     \<lparr>var_name = Some n, sym_type = t, sym_val_obj = map_option (\<lambda>x. (t, x)) v,
      child_ops = {}, producer = None, op_output_idx = None, var_cls = PlainVar,
      nonreplaceable_vars_upstream = {}\<rparr>"

definition int_vec :: "int list \<Rightarrow> pyval" where
  "int_vec xs = Array [length xs] (map Conc xs)"

text \<open>
  A store: \<open>0\<close> is \<open>[1, 2]\<close>, \<open>1\<close> is \<open>[3, 4]\<close>, \<open>2\<close> is \<open>[1, 3]\<close>, \<open>3\<close> has a
  symbolic dimension and no value, \<open>4\<close> has a value with a symbol in it, \<open>5\<close> is a
  vector of floats without a value.
\<close>

definition ex_heap :: "var_id \<Rightarrow> var" where
  "ex_heap =
     (\<lambda>_. mk_var ''free'' Unknown None)
     (0 := mk_var ''a'' (Tensor Int32 [Dim 2]) (Some (int_vec [1, 2])),
      1 := mk_var ''b'' (Tensor Int32 [Dim 2]) (Some (int_vec [3, 4])),
      2 := mk_var ''c'' (Tensor Int32 [Dim 2]) (Some (int_vec [1, 3])),
      3 := mk_var ''d'' (Tensor Int32 [SymDim ''s0'']) None,
      4 := mk_var ''e'' (Tensor Int32 [Dim 2]) (Some (Array [2] [Symb ''s1'', Conc 2])),
      5 := mk_var ''f'' (Tensor Fp32 [Dim 2]) None)"

definition ex_kwargs :: "(string \<times> pyobj) list" where
  "ex_kwargs =
     [(''name'', PyStr ''add_0''), (''enclosing_block'', PyBind BOther), (''scopes'', PyBind BOther)]"

text \<open>The operation \<^verbatim>\<open>add_0\<close> with the given Vars bound to \<^verbatim>\<open>x\<close> and \<^verbatim>\<open>y\<close>.\<close>

definition add_op :: "var_id \<Rightarrow> var_id \<Rightarrow> error + state" where
  "add_op x y =
     init plain_env add_kind ex_heap 10 7
       (ex_kwargs @ [(''x'', PyBind (BVar x)), (''y'', PyBind (BVar y))])"

text \<open>
  A kind with two outputs whose value inference knows the first output only, and an
  operation of that kind without inputs.
\<close>

definition pair_kind :: kind where
  "pair_kind =
     \<lparr>op_type = ''pair'',
      input_spec = [],
      type_domains = [],
      type_inference = (\<lambda>iv. Inr (Tuple [Tensor Int32 [Dim 1], Tensor Int32 [Dim 1]])),
      value_inference = Bare (\<lambda>iv. Inr (Tuple [Some (Plain (int_vec [1])), None])),
      output_names = Some (Tuple [''lo'', ''hi'']),
      complex_data = (\<lambda>_. None)\<rparr>"

definition pair_op :: state where
  "pair_op =
     \<lparr>heap = ex_heap, next_var = 10, self_id = 8, op_name = Some ''pair_0'',
      input_types = [], input_vars = (\<lambda>_. None), output_vars = None\<rparr>"

text \<open>
  The state that constructing \<^verbatim>\<open>add_0\<close> on \<open>x\<close> and \<open>y\<close> reaches: both Vars have
  the operation \<open>7\<close> among their consumers, and the type domain of the required inputs
  is filled in.
\<close>

definition attached :: "(var_id \<Rightarrow> var) \<Rightarrow> op_id \<Rightarrow> var_id \<Rightarrow> (var_id \<Rightarrow> var)" where
  "attached h sid v = h(v := (h v)\<lparr>child_ops := insert sid (child_ops (h v))\<rparr>)"

definition add_state :: "var_id \<Rightarrow> var_id \<Rightarrow> state" where
  "add_state x y =
     \<lparr>heap = attached (attached ex_heap 7 x) 7 y, next_var = 10, self_id = 7,
      op_name = Some ''add_0'',
      input_types = [(''x'', req_tensor\<lparr>type_domain := [Int32, Fp32]\<rparr>),
                     (''y'', req_tensor\<lparr>type_domain := [Int32, Fp32]\<rparr>),
                     (''bias'', opt_tensor)],
      input_vars = (\<lambda>_. None)(''x'' := Some (BVar x), ''y'' := Some (BVar y)),
      output_vars = None\<rparr>"

text \<open>
  The state that the first inference of \<^verbatim>\<open>add_0\<close> reaches: one output, at address
  \<open>10\<close>, named after the operation, with the type of \<open>x\<close> and the value \<open>v\<close>.
\<close>

definition add_inferred :: "var_id \<Rightarrow> var_id \<Rightarrow> (mil_type \<times> pyval) option \<Rightarrow> state" where
  "add_inferred x y v =
     (add_state x y)
       \<lparr>heap := (heap (add_state x y))
          (10 := \<lparr>var_name = Some ''add_0'', sym_type = sym_type (ex_heap x), sym_val_obj = v,
                  child_ops = {}, producer = Some 7, op_output_idx = Some 0, var_cls = PlainVar,
                  nonreplaceable_vars_upstream = {}\<rparr>),
        next_var := 11,
        output_vars := Some [10]\<rparr>"

text \<open>
  The state the constructor of \<^verbatim>\<open>add_0\<close> reaches before its last line when only
  \<^verbatim>\<open>x\<close> is bound (to the Var \<open>0\<close>), and the state that rebinding \<^verbatim>\<open>x\<close> of
  \<open>add_state 0 1\<close> from the Var \<open>0\<close> to the Var \<open>2\<close> reaches.
\<close>

definition add_partial :: state where
  "add_partial =
     (add_state 0 1)\<lparr>heap := attached ex_heap 7 0,
                     input_vars := (\<lambda>_. None)(''x'' := Some (BVar 0))\<rparr>"

definition add_rebound :: state where
  "add_rebound =
     (add_state 0 1)
       \<lparr>heap := (heap (add_state 0 1))
          (0 := (heap (add_state 0 1) 0)\<lparr>child_ops := {}\<rparr>,
           2 := (heap (add_state 0 1) 2)\<lparr>child_ops := {7}\<rparr>),
        input_vars := (input_vars (add_state 0 1))(''x'' := Some (BVar 2))\<rparr>"

text \<open>
  The operation \<^verbatim>\<open>add_0\<close> on \<open>[1, 2]\<close> and \<open>[3, 4]\<close> after its first inference, and
  the state that rebinding its \<^verbatim>\<open>x\<close> to the Var \<open>2\<close> without inference reaches.
\<close>

definition add_done :: state where
  "add_done = add_inferred 0 1 (Some (Tensor Int32 [Dim 2], int_vec [4, 6]))"

definition add_done_rebound :: state where
  "add_done_rebound =
     add_done
       \<lparr>heap := (heap add_done)
          (0 := (heap add_done 0)\<lparr>child_ops := {}\<rparr>,
           2 := (heap add_done 2)\<lparr>child_ops := {7}\<rparr>),
        input_vars := (input_vars add_done)(''x'' := Some (BVar 2))\<rparr>"

text \<open>
  The operation \<^verbatim>\<open>add_0\<close> after its first inference on \<open>[1, 2]\<close> and \<open>[3, 4]\<close>,
  with \<^verbatim>\<open>x\<close> then rebound to the Var \<open>4\<close>, whose value has an unresolved symbol:
  the output still holds \<open>[4, 6]\<close>.
\<close>

definition add_done_symbolic :: state where
  "add_done_symbolic = add_inferred 4 1 (Some (Tensor Int32 [Dim 2], int_vec [4, 6]))"

text \<open>
  An operation without inputs that has one output, at address \<open>10\<close>, of type \<open>t\<close>
  and value \<open>v\<close>.
\<close>

definition out_state :: "mil_type \<Rightarrow> pyval \<Rightarrow> state" where
  "out_state t v =
     \<lparr>heap = ex_heap(10 := \<lparr>var_name = Some ''out'', sym_type = t, sym_val_obj = Some (t, v),
                             child_ops = {}, producer = Some 8, op_output_idx = Some 0,
                             var_cls = PlainVar, nonreplaceable_vars_upstream = {}\<rparr>),
      next_var = 11, self_id = 8, op_name = Some ''out'',
      input_types = [], input_vars = (\<lambda>_. None), output_vars = Some [10]\<rparr>"

text \<open>
  A kind whose single output is a list of tensors of the shape \<open>sh\<close>, and the state that
  the first inference of such an operation reaches from \<open>pair_op\<close>.
\<close>

definition list_kind :: "dim list \<Rightarrow> kind" where
  "list_kind sh =
     \<lparr>op_type = ''make_list'',
      input_spec = [],
      type_domains = [],
      type_inference = (\<lambda>iv. Inr (Single (ListT (Tensor Int32 sh) 0 True))),
      value_inference = NotImplementedVI,
      output_names = None,
      complex_data = (\<lambda>_. None)\<rparr>"

definition list_made :: "dim list \<Rightarrow> state" where
  "list_made sh =
     pair_op
       \<lparr>heap := ex_heap
          (10 := \<lparr>var_name = Some ''pair_0'', sym_type = ListT (Tensor Int32 sh) 0 True,
                  sym_val_obj = None, child_ops = {}, producer = Some 8, op_output_idx = Some 0,
                  var_cls = ListVar (Tensor Int32 sh) 0 True, nonreplaceable_vars_upstream = {}\<rparr>),
        next_var := 11,
        output_vars := Some [10]\<rparr>"

text \<open>
  A constant whose value is the one-entry array holding the value that is not a number,
  and the state that the first inference of such an operation reaches from \<open>pair_op\<close>.
\<close>

definition nan_kind :: kind where
  "nan_kind =
     \<lparr>op_type = ''const'',
      input_spec = [],
      type_domains = [],
      type_inference = (\<lambda>iv. Inr (Single (Tensor Fp32 [Dim 1]))),
      value_inference = Bare (\<lambda>iv. Inr (Single (Some (Plain (Array [1] [NaN]))))),
      output_names = None,
      complex_data = (\<lambda>_. None)\<rparr>"

definition nan_made :: state where
  "nan_made =
     pair_op
       \<lparr>heap := ex_heap
          (10 := \<lparr>var_name = Some ''pair_0'', sym_type = Tensor Fp32 [Dim 1],
                  sym_val_obj = Some (Tensor Fp32 [Dim 1], Array [1] [NaN]),
                  child_ops = {}, producer = Some 8, op_output_idx = Some 0,
                  var_cls = PlainVar, nonreplaceable_vars_upstream = {}\<rparr>),
        next_var := 11,
        output_vars := Some [10]\<rparr>"

text \<open>
  A kind that infers two outputs and names one, and the state that the first inference
  of such an operation reaches from \<open>pair_op\<close>: the loop over the names, the types
  and the values stops with the names, so there is one output.
\<close>

definition short_kind :: kind where
  "short_kind =
     \<lparr>op_type = ''pair'',
      input_spec = [],
      type_domains = [],
      type_inference = (\<lambda>iv. Inr (Tuple [Tensor Int32 [Dim 1], Tensor Int32 [Dim 1]])),
      value_inference = Bare (\<lambda>iv. Inr (Tuple [Some (Plain (int_vec [1])), Some (Plain (int_vec [2]))])),
      output_names = Some (Single ''lo''),
      complex_data = (\<lambda>_. None)\<rparr>"

definition short_made :: state where
  "short_made =
     pair_op
       \<lparr>heap := ex_heap
          (10 := \<lparr>var_name = Some ''pair_0_lo'', sym_type = Tensor Int32 [Dim 1],
                  sym_val_obj = Some (Tensor Int32 [Dim 1], int_vec [1]),
                  child_ops = {}, producer = Some 8, op_output_idx = Some 0,
                  var_cls = PlainVar, nonreplaceable_vars_upstream = {}\<rparr>),
        next_var := 11,
        output_vars := Some [10]\<rparr>"

section \<open>Notions used in the statements\<close>

text \<open>
  Two states differ at most in consumer sets and in the slots: the contract, the
  outputs, and every field of every Var other than \<open>child_ops\<close> are the same.
\<close>

definition consumers_only :: "state \<Rightarrow> state \<Rightarrow> bool" where
  "consumers_only s s' \<longleftrightarrow>
     input_types s' = input_types s \<and> output_vars s' = output_vars s
     \<and> next_var s' = next_var s \<and> self_id s' = self_id s \<and> op_name s' = op_name s
     \<and> (\<forall>i. heap s' i = (heap s i)\<lparr>child_ops := child_ops (heap s' i)\<rparr>)"

text \<open>Every required slot of the contract is bound.\<close>

definition all_required_bound :: "state \<Rightarrow> bool" where
  "all_required_bound s \<longleftrightarrow>
     (\<forall>(n, t) \<in> set (input_types s). \<not> optional t \<longrightarrow> input_vars s n \<noteq> None)"

text \<open>
  Two states differ at most in the markers of the Vars: the contract, the slots, the
  outputs, and every field of every Var other than \<open>nonreplaceable_vars_upstream\<close> are
  the same.
\<close>

definition markers_only :: "state \<Rightarrow> state \<Rightarrow> bool" where
  "markers_only s s' \<longleftrightarrow>
     input_types s' = input_types s \<and> input_vars s' = input_vars s \<and> output_vars s' = output_vars s
     \<and> next_var s' = next_var s \<and> self_id s' = self_id s \<and> op_name s' = op_name s
     \<and> (\<forall>i. heap s' i = (heap s i)\<lparr>nonreplaceable_vars_upstream := nonreplaceable_vars_upstream (heap s' i)\<rparr>)"

section \<open>The concrete operation, evaluated\<close>

lemmas ex_defs = add_state_def attached_def ex_heap_def mk_var_def req_tensor_def opt_tensor_def
  int_vec_def add_kind_def plain_env_def add_inferred_def add_values_def

lemmas gate_defs = process_def any_symbolic_def sym_val_def val_def wrapper_def call_value_inference_def
  auto_val_def inputs_of_def VALUE_def SYMBOL_def NONE_def

lemmas infer_defs = type_value_inference_def get_output_names_def new_var_def append_output_def
  outputs_def Let_def

lemma infer_add_4_1:
  "type_value_inference plain_env add_kind False (add_state 4 1) = Inr (add_inferred 4 1 None)"
  by (simp add: ex_defs gate_defs infer_defs)

lemma infer_add_0_1:
  "type_value_inference plain_env add_kind False (add_state 0 1)
     = Inr (add_inferred 0 1 (Some (Tensor Int32 [Dim 2], int_vec [4, 6])))"
  by (simp add: ex_defs gate_defs infer_defs)

lemma add_op_state: "add_op x y = Inr (add_state x y)"
  by (simp add: add_op_def add_state_def init_def init_inputs_def ex_kwargs_def add_kind_def
      check_expected_inputs_def non_attributes_def req_tensor_def opt_tensor_def
      validate_and_set_inputs_def plain_env_def detach_existing_def attach_new_def add_child_op_def
      ensure_required_inputs_def attached_def Let_def)

section \<open>Value inference accepts no partial result\<close>

text \<open>
  C6. When \<^verbatim>\<open>value_inference\<close> returns candidates and one of them is \<^verbatim>\<open>None\<close>,
  \<^verbatim>\<open>_auto_val\<close> returns \<^verbatim>\<open>None\<close> for every output type; and whatever it returns
  is either unknown for all outputs or known for all of them, never a mixture.
\<close>

theorem auto_val_no_partial_results:
  "(call_value_inference k s = Inr r \<and> None \<in> set (as_tuple r)
      \<longrightarrow> auto_val k s output_types = Inr (replicate (length output_types) None))
   \<and> (auto_val k s output_types = Inr out
      \<longrightarrow> (\<forall>v \<in> set out. v = None) \<or> (\<forall>v \<in> set out. v \<noteq> None))"
proof (intro conjI impI)
  assume "call_value_inference k s = Inr r \<and> None \<in> set (as_tuple r)"
  then show "auto_val k s output_types = Inr (replicate (length output_types) None)"
    by (simp add: auto_val_def list_ex_iff map_replicate_const)
next
  assume a: "auto_val k s output_types = Inr out"
  show "(\<forall>v \<in> set out. v = None) \<or> (\<forall>v \<in> set out. v \<noteq> None)"
  proof (cases "call_value_inference k s")
    case (Inl err)
    with a have "out = map (\<lambda>_. None) output_types"
      by (simp add: auto_val_def split: if_splits)
    then show ?thesis by auto
  next
    case (Inr r)
    show ?thesis
    proof (cases "list_ex (\<lambda>v. v = None) (as_tuple r)")
      case True
      with a Inr have "out = map (\<lambda>_. None) output_types"
        by (simp add: auto_val_def)
      then show ?thesis by auto
    next
      case False
      with a Inr have "out = map (\<lambda>(t, v). Some (t, unwrap (the v))) (zip output_types (as_tuple r))"
        by (simp add: auto_val_def)
      then have "\<forall>v \<in> set out. v \<noteq> None" by auto
      then show ?thesis ..
    qed
  qed
qed

theorem auto_val_no_partial_results_witness:
  "call_value_inference pair_kind pair_op = Inr (Tuple [Some (Plain (int_vec [1])), None])
   \<and> None \<in> set (as_tuple (Tuple [Some (Plain (int_vec [1])), None]))
   \<and> auto_val pair_kind pair_op [Tensor Int32 [Dim 1], Tensor Int32 [Dim 1]] = Inr [None, None]"
  using auto_val_no_partial_results [of pair_kind pair_op "Tuple [Some (Plain (int_vec [1])), None]"
      "[Tensor Int32 [Dim 1], Tensor Int32 [Dim 1]]" "[None, None]"]
  by (simp add: call_value_inference_def pair_kind_def)

section \<open>The classification gate\<close>

lemma sym_val_None_iff: "sym_val v = None \<longleftrightarrow> sym_val_obj v = None"
  by (simp add: sym_val_def)

lemma process_bits:
  "process v (hv, hs, hn) =
     (hv \<or> (\<not> any_symbolic (sym_val v) \<and> sym_val v \<noteq> None),
      hs \<or> any_symbolic (sym_val v),
      hn \<or> sym_val v = None)"
  by (cases "sym_val_obj v") (auto simp: process_def val_def sym_val_def any_symbolic_def)

lemma foldl_process_bits:
  "foldl (\<lambda>b' v. process (h v) b') (hv, hs, hn) vs =
     (hv \<or> (\<exists>v \<in> set vs. \<not> any_symbolic (sym_val (h v)) \<and> sym_val (h v) \<noteq> None),
      hs \<or> (\<exists>v \<in> set vs. any_symbolic (sym_val (h v))),
      hn \<or> (\<exists>v \<in> set vs. sym_val (h v) = None))"
proof (induction vs arbitrary: hv hs hn)
  case Nil
  show ?case by simp
next
  case (Cons v vs)
  show ?case
    unfolding foldl_Cons process_bits Cons.IH by auto
qed

lemma classify_foldl:
  "classify s its b = Inr b' \<Longrightarrow>
     b' = foldl (\<lambda>b' v. process (heap s v) b') b (required_vars s its)"
proof (induction its arbitrary: b)
  case Nil
  then show ?case by (simp add: required_vars_def)
next
  case (Cons it its)
  obtain n t where it: "it = (n, t)" by (cases it)
  show ?case
  proof (cases "optional t")
    case True
    with Cons it show ?thesis by (simp add: required_vars_def)
  next
    case False
    note req = this
    show ?thesis
    proof (cases "in_class t = TupleInputType")
      case True
      with Cons.prems it req obtain vs where vs: "input_vars s n = Some (BTuple vs)"
        and rest: "classify s its (foldl (\<lambda>b' v. process (heap s v) b') b vs) = Inr b'"
        by (auto split: option.splits binding.splits)
      from Cons.IH [OF rest] vs it req show ?thesis
        by (simp add: required_vars_def)
    next
      case False
      with Cons.prems it req obtain v where v: "input_vars s n = Some (BVar v)"
        and rest: "classify s its (process (heap s v) b) = Inr b'"
        by (auto split: option.splits binding.splits)
      from Cons.IH [OF rest] v it req show ?thesis
        by (simp add: required_vars_def)
    qed
  qed
qed

lemma classify_skips_optional:
  "classify s (filter (\<lambda>(n, t). \<not> optional t) its) b = classify s its b"
proof (induction its arbitrary: b)
  case Nil
  show ?case by simp
next
  case (Cons it its)
  show ?case
    by (cases it) (simp add: Cons.IH split: option.splits binding.splits)
qed

lemma classify_add_4_1:
  "classify (add_state 4 1) (input_types (add_state 4 1)) (False, False, False) = Inr (True, True, False)"
  by (simp add: add_state_def attached_def ex_heap_def mk_var_def req_tensor_def opt_tensor_def
      process_def any_symbolic_def sym_val_def val_def int_vec_def)

lemma classify_add_3_1:
  "classify (add_state 3 1) (input_types (add_state 3 1)) (False, False, False) = Inr (True, False, True)"
  by (simp add: add_state_def attached_def ex_heap_def mk_var_def req_tensor_def opt_tensor_def
      process_def any_symbolic_def sym_val_def val_def int_vec_def)

text \<open>
  C5, as amended. The gate looks at the value of an input and never at its type: over
  the required inputs, tuples expanded, the accumulated bits say whether some value
  contains an unresolved symbol (Symbolic), whether some input carries a value free of
  symbols (Materialized), and whether some input has no value (Absent). Optional
  inputs contribute nothing: the gate gives the same answer on the contract without
  them.
\<close>

theorem classify_reads_values_only:
  "(classify s its (False, False, False) = Inr (has_value, has_symbol, has_none) \<longrightarrow>
      (has_symbol \<longleftrightarrow> (\<exists>v \<in> set (required_vars s its). any_symbolic (sym_val (heap s v))))
    \<and> (has_value \<longleftrightarrow> (\<exists>v \<in> set (required_vars s its).
                          \<not> any_symbolic (sym_val (heap s v)) \<and> sym_val (heap s v) \<noteq> None))
    \<and> (has_none \<longleftrightarrow> (\<exists>v \<in> set (required_vars s its). sym_val (heap s v) = None)))
   \<and> classify s (filter (\<lambda>(n, t). \<not> optional t) its) b = classify s its b"
proof (intro conjI impI)
  assume a: "classify s its (False, False, False) = Inr (has_value, has_symbol, has_none)"
  have eq: "(has_value, has_symbol, has_none) =
      foldl (\<lambda>b' v. process (heap s v) b') (False, False, False) (required_vars s its)"
    by (rule classify_foldl [OF a])
  show "has_symbol \<longleftrightarrow> (\<exists>v \<in> set (required_vars s its). any_symbolic (sym_val (heap s v)))"
    using eq unfolding foldl_process_bits by simp
  show "has_value \<longleftrightarrow> (\<exists>v \<in> set (required_vars s its).
                          \<not> any_symbolic (sym_val (heap s v)) \<and> sym_val (heap s v) \<noteq> None)"
    using eq unfolding foldl_process_bits by simp
  show "has_none \<longleftrightarrow> (\<exists>v \<in> set (required_vars s its). sym_val (heap s v) = None)"
    using eq unfolding foldl_process_bits by simp
next
  show "classify s (filter (\<lambda>(n, t). \<not> optional t) its) b = classify s its b"
    by (rule classify_skips_optional)
qed

theorem classify_reads_values_only_witness:
  "classify (add_state 4 1) (input_types (add_state 4 1)) (False, False, False) = Inr (True, True, False)
   \<and> (\<exists>v \<in> set (required_vars (add_state 4 1) (input_types (add_state 4 1))).
         any_symbolic (sym_val (heap (add_state 4 1) v)))
   \<and> (\<exists>v \<in> set (required_vars (add_state 4 1) (input_types (add_state 4 1))).
         \<not> any_symbolic (sym_val (heap (add_state 4 1) v)) \<and> sym_val (heap (add_state 4 1) v) \<noteq> None)"
  using classify_reads_values_only [of "add_state 4 1" "input_types (add_state 4 1)" True True False]
    classify_add_4_1
  by blast

text \<open>
  The claim as the specification states it fails: the Var at \<open>3\<close> has an unresolved
  dimension in its type and no value; bound to the required input \<^verbatim>\<open>x\<close> it is
  classified Absent, not Symbolic.
\<close>

theorem symbolic_type_counterexample:
  "input_vars (add_state 3 1) ''x'' = Some (BVar 3)
   \<and> type_has_symbol (sym_type (heap (add_state 3 1) 3))
   \<and> spec_process (heap (add_state 3 1) 3) (False, False, False) = (False, True, False)
   \<and> process (heap (add_state 3 1) 3) (False, False, False) = (False, False, True)
   \<and> classify (add_state 3 1) (input_types (add_state 3 1)) (False, False, False) = Inr (True, False, True)"
  by (simp add: add_state_def attached_def ex_heap_def mk_var_def req_tensor_def opt_tensor_def
      process_def spec_process_def any_symbolic_def sym_val_def val_def int_vec_def)

lemma new_var_unknown:
  "new_var e k s i n t None = Inr v \<Longrightarrow> sym_val_obj v = None"
  by (auto simp: new_var_def Let_def split: if_splits mil_type.splits option.splits sum.splits)

lemma outputs_append_output [simp]: "outputs (append_output s v) = outputs s @ [next_var s]"
  by (simp add: append_output_def outputs_def)

lemma heap_append_output [simp]: "heap (append_output s v) = (heap s)(next_var s := v)"
  by (simp add: append_output_def)

lemma next_var_append_output [simp]: "next_var (append_output s v) = Suc (next_var s)"
  by (simp add: append_output_def)

lemma create_outputs_all_unknown:
  assumes "create_outputs e k s i xs = (s', err)"
      and "\<forall>x \<in> set xs. snd (snd x) = None"
      and "\<forall>o' \<in> set (outputs s). o' < next_var s \<and> sym_val_obj (heap s o') = None"
  shows "\<forall>o' \<in> set (outputs s'). o' < next_var s' \<and> sym_val_obj (heap s' o') = None"
  using assms
proof (induction xs arbitrary: s i)
  case Nil
  then show ?case by simp
next
  case (Cons x xs)
  obtain n t where x: "x = (n, t, None)"
    using Cons.prems(2) by (cases x) auto
  show ?case
  proof (cases "new_var e k s i n t None")
    case (Inl err')
    with Cons.prems x show ?thesis by simp
  next
    case (Inr v)
    have inv: "\<forall>o' \<in> set (outputs (append_output s v)).
        o' < next_var (append_output s v) \<and> sym_val_obj (heap (append_output s v) o') = None"
      using Cons.prems(3) new_var_unknown [OF Inr] by auto
    have run: "create_outputs e k (append_output s v) (Suc i) xs = (s', err)"
      using Cons.prems(1) x Inr by simp
    show ?thesis
      using Cons.IH [OF run _ inv] Cons.prems(2) by simp
  qed
qed

section \<open>Binding inputs\<close>

subsection \<open>Required inputs\<close>

lemma required_inputs_present_Inr:
  "required_inputs_present s its = Inr s' \<Longrightarrow>
     s' = s \<and> (\<forall>(n, t) \<in> set its. \<not> optional t \<longrightarrow> input_vars s n \<noteq> None)"
  by (induction its) (auto split: if_splits)

lemma required_inputs_present_ok:
  "\<forall>(n, t) \<in> set its. \<not> optional t \<longrightarrow> input_vars s n \<noteq> None \<Longrightarrow>
     required_inputs_present s its = Inr s"
  by (induction its) auto

lemma required_inputs_present_missing:
  assumes "(n, t) \<in> set its" and "\<not> optional t" and "input_vars s n = None"
  shows "\<exists>m t'. required_inputs_present s its = Inl (RequiredInputMissing m)
           \<and> (m, t') \<in> set its \<and> \<not> optional t' \<and> input_vars s m = None"
  using assms
proof (induction its)
  case Nil
  then show ?case by simp
next
  case (Cons it its)
  obtain m t' where it: "it = (m, t')" by (cases it)
  show ?case
  proof (cases "\<not> optional t' \<and> input_vars s m = None")
    case True
    then show ?thesis using it by auto
  next
    case False
    with Cons.prems it have "(n, t) \<in> set its" by auto
    from Cons.IH [OF this Cons.prems(2,3)] False it show ?thesis by auto
  qed
qed

lemma ensure_required_inputs_Inr:
  "ensure_required_inputs s = Inr s' \<longleftrightarrow> s' = s \<and> all_required_bound s"
  unfolding ensure_required_inputs_def all_required_bound_def
  using required_inputs_present_Inr [of s "input_types s" s'] required_inputs_present_ok [of "input_types s" s]
  by auto

subsection \<open>What binding changes\<close>

lemma consumers_only_refl: "consumers_only s s"
  by (simp add: consumers_only_def)

lemma consumers_only_trans:
  "consumers_only s s' \<Longrightarrow> consumers_only s' s'' \<Longrightarrow> consumers_only s s''"
  unfolding consumers_only_def
proof (intro conjI allI)
  fix i
  assume a: "input_types s' = input_types s \<and> output_vars s' = output_vars s \<and>
    next_var s' = next_var s \<and> self_id s' = self_id s \<and> op_name s' = op_name s \<and>
    (\<forall>i. heap s' i = (heap s i)\<lparr>child_ops := child_ops (heap s' i)\<rparr>)"
    and b: "input_types s'' = input_types s' \<and> output_vars s'' = output_vars s' \<and>
    next_var s'' = next_var s' \<and> self_id s'' = self_id s' \<and> op_name s'' = op_name s' \<and>
    (\<forall>i. heap s'' i = (heap s' i)\<lparr>child_ops := child_ops (heap s'' i)\<rparr>)"
  have "heap s'' i = (heap s' i)\<lparr>child_ops := child_ops (heap s'' i)\<rparr>" using b by blast
  also have "heap s' i = (heap s i)\<lparr>child_ops := child_ops (heap s' i)\<rparr>" using a by blast
  finally show "heap s'' i = (heap s i)\<lparr>child_ops := child_ops (heap s'' i)\<rparr>" by simp
qed auto

lemma consumers_only_add_child_op: "consumers_only s (add_child_op s v)"
  by (simp add: consumers_only_def add_child_op_def)

lemma consumers_only_remove_child_op: "consumers_only s (remove_child_op s v nc)"
  by (simp add: consumers_only_def remove_child_op_def)

lemma input_vars_add_child_op [simp]: "input_vars (add_child_op s v) = input_vars s"
  by (simp add: add_child_op_def)

lemma input_vars_remove_child_op [simp]: "input_vars (remove_child_op s v nc) = input_vars s"
  by (simp add: remove_child_op_def)

lemma foldl_add_child_op:
  "consumers_only s (foldl add_child_op s vs) \<and> input_vars (foldl add_child_op s vs) = input_vars s"
proof (induction vs arbitrary: s)
  case Nil
  show ?case by (simp add: consumers_only_refl)
next
  case (Cons v vs)
  show ?case
    using Cons.IH [of "add_child_op s v"] consumers_only_add_child_op [of s v]
    by (auto intro: consumers_only_trans)
qed

lemma check_and_detach_frame:
  "check_and_detach e s v_new v_old nc = Inr s' \<Longrightarrow> consumers_only s s' \<and> input_vars s' = input_vars s"
  by (auto simp: check_and_detach_def consumers_only_remove_child_op split: if_splits)

lemma detach_each_frame:
  "detach_each e s nc ps = Inr s' \<Longrightarrow> consumers_only s s' \<and> input_vars s' = input_vars s"
proof (induction ps arbitrary: s)
  case Nil
  then show ?case by (simp add: consumers_only_refl)
next
  case (Cons p ps)
  obtain v_old v_new where p: "p = (v_old, v_new)" by (cases p)
  from Cons.prems p obtain s1 where s1: "check_and_detach e s v_new v_old nc = Inr s1"
    and rest: "detach_each e s1 nc ps = Inr s'"
    by (auto split: sum.splits)
  from check_and_detach_frame [OF s1] Cons.IH [OF rest] show ?case
    by (auto intro: consumers_only_trans)
qed

lemma detach_existing_frame:
  "detach_existing e nc s name var' = Inr s' \<Longrightarrow> consumers_only s s' \<and> input_vars s' = input_vars s"
  by (auto simp: detach_existing_def consumers_only_refl
      dest: check_and_detach_frame detach_each_frame split: option.splits binding.splits)

lemma attach_new_frame:
  "consumers_only s (attach_new s name var') \<and> input_vars (attach_new s name var') = (input_vars s)(name := var')"
proof -
  define s1 where "s1 = (case var' of Some (BVar v) \<Rightarrow> add_child_op s v
      | Some (BTuple vs) \<Rightarrow> foldl add_child_op s vs | _ \<Rightarrow> s)"
  have s1: "consumers_only s s1 \<and> input_vars s1 = input_vars s"
    unfolding s1_def
    by (auto simp: consumers_only_refl consumers_only_add_child_op foldl_add_child_op
        split: option.splits binding.splits)
  have a: "attach_new s name var' = s1\<lparr>input_vars := (input_vars s1)(name := var')\<rparr>"
    by (simp add: attach_new_def s1_def Let_def)
  have "consumers_only s1 (attach_new s name var')"
    unfolding a by (simp add: consumers_only_def)
  with s1 a show ?thesis by (auto intro: consumers_only_trans)
qed

lemma set_each_frame:
  "set_each e nc s kvs = Inr s' \<Longrightarrow>
     consumers_only s s' \<and> (\<forall>n. n \<notin> fst ` set kvs \<longrightarrow> input_vars s' n = input_vars s n)"
proof (induction kvs arbitrary: s)
  case Nil
  then show ?case by (simp add: consumers_only_refl)
next
  case (Cons kv kvs)
  obtain name var' where kv: "kv = (name, var')" by (cases kv)
  from Cons.prems kv obtain s1 where s1: "detach_existing e nc s name var' = Inr s1"
    and rest: "set_each e nc (attach_new s1 name var') kvs = Inr s'"
    by (auto split: sum.splits)
  note f1 = detach_existing_frame [OF s1]
  note f2 = attach_new_frame [of s1 name var']
  note f3 = Cons.IH [OF rest]
  have "consumers_only s s'"
    using f1 f2 f3 by (blast intro: consumers_only_trans)
  moreover have "\<forall>n. n \<notin> fst ` set (kv # kvs) \<longrightarrow> input_vars s' n = input_vars s n"
    using f1 f2 f3 kv by auto
  ultimately show ?case by simp
qed

lemma validate_and_set_inputs_frame:
  "validate_and_set_inputs e s kvs nc = Inr s' \<Longrightarrow>
     consumers_only s s' \<and> (\<forall>n. n \<notin> fst ` set kvs \<longrightarrow> input_vars s' n = input_vars s n)"
  by (auto simp: validate_and_set_inputs_def dest!: set_each_frame split: option.splits)

lemma populate_type_domains_names:
  "populate_type_domains k its = Inr its' \<Longrightarrow>
     map fst its' = map fst its \<and> map (\<lambda>(n, t). optional t) its' = map (\<lambda>(n, t). optional t) its"
proof (induction its arbitrary: its')
  case Nil
  then show ?case by simp
next
  case (Cons it its)
  obtain n v where it: "it = (n, v)" by (cases it)
  from Cons.prems it obtain rest' where r: "populate_type_domains k its = Inr rest'"
    and its': "its' = (n, if in_class v = TensorInputType \<and> length (type_domain v) = 0
                      then v\<lparr>type_domain := the (map_of (type_domains k) (type_domain_id v))\<rparr>
                      else v) # rest'"
    by (auto split: if_splits sum.splits)
  from Cons.IH [OF r] its' it show ?case by simp
qed

lemma populate_required:
  assumes "populate_type_domains k its = Inr its'" and "(n, t) \<in> set its" and "\<not> optional t"
  shows "\<exists>t'. (n, t') \<in> set its' \<and> \<not> optional t'"
proof -
  from assms(2) obtain i where i: "i < length its" "its ! i = (n, t)"
    by (auto simp: in_set_conv_nth)
  note p = populate_type_domains_names [OF assms(1)]
  have len: "length its' = length its" using p by (metis length_map)
  have "fst (its' ! i) = n"
    using p i len by (metis fst_conv nth_map)
  moreover have "(\<lambda>(n, t). optional t) (its' ! i) = (\<lambda>(n, t). optional t) (its ! i)"
    using p i len by (metis nth_map)
  ultimately have "its' ! i = (n, snd (its' ! i)) \<and> \<not> optional (snd (its' ! i))"
    using i assms(3) by (cases "its' ! i") auto
  then show ?thesis using i len by (metis nth_mem)
qed

lemma populate_names_set:
  "populate_type_domains k its = Inr its' \<Longrightarrow> set (map fst its') = set (map fst its)"
  using populate_type_domains_names by metis

lemma populate_optional:
  assumes "populate_type_domains k its = Inr its'" and "(n, t') \<in> set its'"
  shows "\<exists>t. (n, t) \<in> set its \<and> optional t = optional t'"
proof -
  from assms(2) obtain i where i: "i < length its'" "its' ! i = (n, t')"
    by (auto simp: in_set_conv_nth)
  note p = populate_type_domains_names [OF assms(1)]
  have len: "length its' = length its" using p by (metis length_map)
  have "fst (its ! i) = n"
    using p i len by (metis fst_conv nth_map)
  moreover have "(\<lambda>(n, t). optional t) (its' ! i) = (\<lambda>(n, t). optional t) (its ! i)"
    using p i len by (metis nth_map)
  ultimately have "its ! i = (n, snd (its ! i)) \<and> optional (snd (its ! i)) = optional t'"
    using i by (cases "its ! i") auto
  then show ?thesis using i len by (metis nth_mem)
qed

text \<open>What the constructor has done when its binding step returns.\<close>

lemma init_inputs_Inr:
  assumes "init_inputs e k h nv sid kwargs = Inr s"
  shows "\<exists>its. populate_type_domains k (input_spec k) = Inr its \<and> input_types s = its
           \<and> output_vars s = None
           \<and> (\<forall>n. (\<forall>v. (n, v) \<in> set kwargs \<longrightarrow> v = PyNone) \<longrightarrow> input_vars s n = None)"
proof -
  define s0 where "s0 = \<lparr>heap = h, next_var = nv, self_id = sid,
                op_name = (case map_of kwargs ''name'' of Some (PyStr n) \<Rightarrow> Some n | _ \<Rightarrow> None),
                input_types = input_spec k, input_vars = (\<lambda>_. None), output_vars = None\<rparr>"
  from assms obtain its where its: "populate_type_domains k (input_spec k) = Inr its"
    by (auto simp: init_inputs_def Let_def split: if_splits option.splits sum.splits)
  define s1 where "s1 = s0\<lparr>input_types := its\<rparr>"
  define input_kv where "input_kv = map (\<lambda>(k', v). (k', to_binding v))
      (filter (\<lambda>(k', v). k' \<in> set (map fst (input_types s1)) \<and> v \<noteq> PyNone) kwargs)"
  have run: "validate_and_set_inputs e s1 input_kv False = Inr s"
    using assms its
    by (auto simp: init_inputs_def Let_def s0_def s1_def input_kv_def
        split: if_splits option.splits sum.splits)
  note f = validate_and_set_inputs_frame [OF run]
  have types: "input_types s = its" and outs: "output_vars s = None"
    using f by (auto simp: consumers_only_def s1_def s0_def)
  have "input_vars s n = None" if "\<forall>v. (n, v) \<in> set kwargs \<longrightarrow> v = PyNone" for n
  proof -
    have "n \<notin> fst ` set input_kv"
      using that by (auto simp: input_kv_def)
    then have "input_vars s n = input_vars s1 n" using f by blast
    then show ?thesis by (simp add: s1_def s0_def)
  qed
  with its types outs show ?thesis by blast
qed

lemma init_Inr_bound:
  "init e k h nv sid kwargs = Inr s \<Longrightarrow> init_inputs e k h nv sid kwargs = Inr s \<and> all_required_bound s"
  by (auto simp: init_def ensure_required_inputs_Inr split: sum.splits)

text \<open>
  C8. Whenever a required slot is unbound, \<^verbatim>\<open>_ensure_required_inputs\<close> raises the
  error that names a required, unbound slot. A construction whose keywords leave a
  required slot without a value fails, and with that error as soon as the steps before
  the last line of the constructor pass. A rebinding that succeeds leaves every
  required slot bound.
\<close>

theorem missing_required_input_is_reported:
  "((n, t) \<in> set (input_types s) \<and> \<not> optional t \<and> input_vars s n = None \<longrightarrow>
      (\<exists>m t'. ensure_required_inputs s = Inl (RequiredInputMissing m)
         \<and> (m, t') \<in> set (input_types s) \<and> \<not> optional t' \<and> input_vars s m = None))
   \<and> ((n, t) \<in> set (input_spec k) \<and> \<not> optional t \<and> (\<forall>v. (n, v) \<in> set kwargs \<longrightarrow> v = PyNone) \<longrightarrow>
        (\<exists>err. init e k h nv sid kwargs = Inl err)
        \<and> (\<forall>s1. init_inputs e k h nv sid kwargs = Inr s1 \<longrightarrow>
              (\<exists>m t'. init e k h nv sid kwargs = Inl (RequiredInputMissing m)
                 \<and> (m, t') \<in> set (input_types s1) \<and> \<not> optional t' \<and> input_vars s1 m = None)))
   \<and> (set_inputs e k no_check_var_types type_inference' input_kvs s0 = Inr s' \<longrightarrow>
        all_required_bound s')"
proof (intro conjI impI)
  assume "(n, t) \<in> set (input_types s) \<and> \<not> optional t \<and> input_vars s n = None"
  then show "\<exists>m t'. ensure_required_inputs s = Inl (RequiredInputMissing m)
         \<and> (m, t') \<in> set (input_types s) \<and> \<not> optional t' \<and> input_vars s m = None"
    unfolding ensure_required_inputs_def by (blast intro: required_inputs_present_missing)
next
  assume a: "(n, t) \<in> set (input_spec k) \<and> \<not> optional t \<and> (\<forall>v. (n, v) \<in> set kwargs \<longrightarrow> v = PyNone)"
  have step: "\<exists>m t'. init e k h nv sid kwargs = Inl (RequiredInputMissing m)
                 \<and> (m, t') \<in> set (input_types s1) \<and> \<not> optional t' \<and> input_vars s1 m = None"
    if s1: "init_inputs e k h nv sid kwargs = Inr s1" for s1
  proof -
    from init_inputs_Inr [OF s1] obtain its where its: "populate_type_domains k (input_spec k) = Inr its"
      and types: "input_types s1 = its" and unbound: "input_vars s1 n = None"
      using a by blast
    from populate_required [OF its] a obtain t1 where "(n, t1) \<in> set its" "\<not> optional t1" by blast
    with types unbound have "\<exists>m t'. required_inputs_present s1 (input_types s1) = Inl (RequiredInputMissing m)
           \<and> (m, t') \<in> set (input_types s1) \<and> \<not> optional t' \<and> input_vars s1 m = None"
      by (intro required_inputs_present_missing) auto
    then show ?thesis using s1 by (simp add: init_def ensure_required_inputs_def)
  qed
  then show "\<forall>s1. init_inputs e k h nv sid kwargs = Inr s1 \<longrightarrow>
              (\<exists>m t'. init e k h nv sid kwargs = Inl (RequiredInputMissing m)
                 \<and> (m, t') \<in> set (input_types s1) \<and> \<not> optional t' \<and> input_vars s1 m = None)"
    by blast
  show "\<exists>err. init e k h nv sid kwargs = Inl err"
  proof (cases "init_inputs e k h nv sid kwargs")
    case (Inl err)
    then show ?thesis by (simp add: init_def)
  next
    case (Inr s1)
    from step [OF Inr] show ?thesis by blast
  qed
next
  assume "set_inputs e k no_check_var_types type_inference' input_kvs s0 = Inr s'"
  then show "all_required_bound s'"
    by (auto simp: set_inputs_def ensure_required_inputs_Inr split: sum.splits)
qed

lemmas bind_defs = init_def init_inputs_def ex_kwargs_def check_expected_inputs_def non_attributes_def
  validate_and_set_inputs_def detach_existing_def attach_new_def add_child_op_def remove_child_op_def
  check_and_detach_def ensure_required_inputs_def set_inputs_def

lemma init_inputs_x_only:
  "init_inputs plain_env add_kind ex_heap 10 7 (ex_kwargs @ [(''x'', PyBind (BVar 0)), (''y'', PyNone)])
     = Inr add_partial"
  by (simp add: bind_defs ex_defs add_partial_def Let_def)

lemma init_x_only:
  "init plain_env add_kind ex_heap 10 7 (ex_kwargs @ [(''x'', PyBind (BVar 0)), (''y'', PyNone)])
     = Inl (RequiredInputMissing ''y'')"
proof -
  have "init plain_env add_kind ex_heap 10 7 (ex_kwargs @ [(''x'', PyBind (BVar 0)), (''y'', PyNone)])
      = ensure_required_inputs add_partial"
    by (simp add: init_def init_inputs_x_only)
  also have "\<dots> = Inl (RequiredInputMissing ''y'')"
    by (simp add: ensure_required_inputs_def add_partial_def ex_defs)
  finally show ?thesis .
qed

lemma rebind_x:
  "set_inputs plain_env add_kind False False [(''x'', Some (BVar 2))] (add_state 0 1) = Inr add_rebound"
  by (simp add: bind_defs ex_defs add_rebound_def Let_def)

theorem missing_required_input_is_reported_witness:
  "(''y'', req_tensor\<lparr>type_domain := [Int32, Fp32]\<rparr>) \<in> set (input_types add_partial)
   \<and> \<not> optional (req_tensor\<lparr>type_domain := [Int32, Fp32]\<rparr>)
   \<and> input_vars add_partial ''y'' = None
   \<and> ensure_required_inputs add_partial = Inl (RequiredInputMissing ''y'')
   \<and> (''y'', req_tensor) \<in> set (input_spec add_kind)
   \<and> map_of (ex_kwargs @ [(''x'', PyBind (BVar 0)), (''y'', PyNone)]) ''y'' = Some PyNone
   \<and> init_inputs plain_env add_kind ex_heap 10 7 (ex_kwargs @ [(''x'', PyBind (BVar 0)), (''y'', PyNone)])
       = Inr add_partial
   \<and> init plain_env add_kind ex_heap 10 7 (ex_kwargs @ [(''x'', PyBind (BVar 0)), (''y'', PyNone)])
       = Inl (RequiredInputMissing ''y'')
   \<and> set_inputs plain_env add_kind False False [(''x'', Some (BVar 2))] (add_state 0 1) = Inr add_rebound
   \<and> input_vars add_rebound ''x'' = Some (BVar 2)
   \<and> input_vars add_rebound ''y'' = Some (BVar 1)"
proof -
  have h: "\<forall>v. (''y'', v) \<in> set (ex_kwargs @ [(''x'', PyBind (BVar 0)), (''y'', PyNone)]) \<longrightarrow> v = PyNone"
    by (simp add: ex_kwargs_def)
  have b: "all_required_bound add_rebound"
    using missing_required_input_is_reported [of "''y''" "req_tensor\<lparr>type_domain := [Int32, Fp32]\<rparr>"
      add_partial add_kind "ex_kwargs @ [(''x'', PyBind (BVar 0)), (''y'', PyNone)]"
      plain_env ex_heap 10 7 False False "[(''x'', Some (BVar 2))]" "add_state 0 1" add_rebound]
      rebind_x
    by blast
  show ?thesis
    using b h init_inputs_x_only init_x_only rebind_x
    by (simp add: add_partial_def add_rebound_def ex_defs ensure_required_inputs_def
        all_required_bound_def ex_kwargs_def)
qed

subsection \<open>A keyword that is None\<close>

lemma map_of_drop_other:
  "n' \<noteq> n \<Longrightarrow> map_of (xs @ (n, v) # ys) n' = map_of (xs @ ys) n'"
  by (simp add: map_add_def split: option.splits)

lemma find_drop_failing:
  "\<not> P x \<Longrightarrow> find P (xs @ x # ys) = find P (xs @ ys)"
  by (induction xs) auto

lemma map_of_None_key:
  "n \<notin> fst ` set kvs \<Longrightarrow> map_of kvs n = None"
  by (simp add: map_of_eq_None_iff)

lemma name_of_None_key:
  assumes "n \<notin> fst ` set (xs @ ys)"
  shows "(case map_of (xs @ (n, PyNone) # ys) ''name'' of Some (PyStr m) \<Rightarrow> Some m | _ \<Rightarrow> None)
       = (case map_of (xs @ ys) ''name'' of Some (PyStr m) \<Rightarrow> Some m | _ \<Rightarrow> None)"
proof (cases "n = ''name''")
  case False
  then have "map_of (xs @ (n, PyNone) # ys) ''name'' = map_of (xs @ ys) ''name''"
    by (intro map_of_drop_other) simp
  then show ?thesis by (simp only:)
next
  case True
  have a: "map_of (xs @ ys) ''name'' = None"
    using assms True by (intro map_of_None_key) simp
  have "map_of xs ''name'' = None"
    using assms True by (intro map_of_None_key) auto
  then have b: "map_of (xs @ (n, PyNone) # ys) ''name'' = Some PyNone"
    using True by (simp add: map_add_def)
  show ?thesis unfolding a b by simp
qed

lemma init_inputs_ignores_None:
  assumes "n \<in> fst ` set (input_spec k)"
      and "n \<noteq> ''enclosing_block''" and "n \<noteq> ''scopes''"
      and "n \<notin> fst ` set (xs @ ys)"
  shows "init_inputs e k h nv sid (xs @ (n, PyNone) # ys) = init_inputs e k h nv sid (xs @ ys)"
proof -
  have nm: "(case map_of (xs @ (n, PyNone) # ys) ''name'' of Some (PyStr m) \<Rightarrow> Some m | _ \<Rightarrow> None)
       = (case map_of (xs @ ys) ''name'' of Some (PyStr m) \<Rightarrow> Some m | _ \<Rightarrow> None)"
    by (rule name_of_None_key [OF assms(4)])
  have eb: "map_of (xs @ (n, PyNone) # ys) ''enclosing_block'' = map_of (xs @ ys) ''enclosing_block''"
    using assms(2) by (intro map_of_drop_other) simp
  have sc: "map_of (xs @ (n, PyNone) # ys) ''scopes'' = map_of (xs @ ys) ''scopes''"
    using assms(3) by (intro map_of_drop_other) simp
  have chk: "check_expected_inputs s0 (xs @ (n, PyNone) # ys) = check_expected_inputs s0 (xs @ ys)"
    if "input_types s0 = input_spec k" for s0 :: state
    using assms(1) that by (simp add: check_expected_inputs_def find_drop_failing)
  have flt: "filter (\<lambda>(k', v). k' \<in> A \<and> v \<noteq> PyNone) (xs @ (n, PyNone) # ys)
      = filter (\<lambda>(k', v). k' \<in> A \<and> v \<noteq> PyNone) (xs @ ys)" for A
    by simp
  show ?thesis
    unfolding init_inputs_def Let_def nm eb sc flt
    by (simp add: chk cong: option.case_cong sum.case_cong if_cong)
qed

text \<open>
  C9. A keyword of the constructor that names a slot and whose value is \<^verbatim>\<open>None\<close> is
  ignored: the constructor behaves as without it. If the construction succeeds the slot
  is unbound and optional; for a required slot the construction fails, with the
  missing-required-input error as soon as the earlier steps pass.
\<close>

theorem none_keyword_is_ignored:
  assumes "(n, t) \<in> set (input_spec k)"
      and "n \<noteq> ''enclosing_block''" and "n \<noteq> ''scopes''"
      and "n \<notin> fst ` set (xs @ ys)"
  shows "init e k h nv sid (xs @ (n, PyNone) # ys) = init e k h nv sid (xs @ ys)
         \<and> (\<forall>s. init e k h nv sid (xs @ (n, PyNone) # ys) = Inr s \<longrightarrow> input_vars s n = None \<and> optional t)
         \<and> (\<not> optional t \<longrightarrow>
              (\<exists>err. init e k h nv sid (xs @ (n, PyNone) # ys) = Inl err)
              \<and> (\<forall>s1. init_inputs e k h nv sid (xs @ (n, PyNone) # ys) = Inr s1 \<longrightarrow>
                    (\<exists>m. init e k h nv sid (xs @ (n, PyNone) # ys) = Inl (RequiredInputMissing m))))"
proof (intro conjI allI impI)
  have n: "n \<in> fst ` set (input_spec k)" using assms(1) by force
  show "init e k h nv sid (xs @ (n, PyNone) # ys) = init e k h nv sid (xs @ ys)"
    by (simp add: init_def init_inputs_ignores_None [OF n assms(2,3,4)])
  have none: "\<forall>v. (n, v) \<in> set (xs @ (n, PyNone) # ys) \<longrightarrow> v = PyNone"
    using assms(4) by force
  have succ: "input_vars s n = None \<and> optional t"
    if s: "init e k h nv sid (xs @ (n, PyNone) # ys) = Inr s" for s
  proof -
    from init_Inr_bound [OF s] have s1: "init_inputs e k h nv sid (xs @ (n, PyNone) # ys) = Inr s"
      and bound: "all_required_bound s" by simp_all
    from init_inputs_Inr [OF s1] none obtain its where its: "populate_type_domains k (input_spec k) = Inr its"
      and types: "input_types s = its" and unbound: "input_vars s n = None"
      by blast
    have "optional t"
    proof (rule ccontr)
      assume "\<not> optional t"
      from populate_required [OF its assms(1) this] obtain t1 where "(n, t1) \<in> set its" "\<not> optional t1"
        by blast
      with bound types unbound show False by (auto simp: all_required_bound_def)
    qed
    with unbound show ?thesis by simp
  qed
  show "input_vars s n = None" if "init e k h nv sid (xs @ (n, PyNone) # ys) = Inr s" for s
    using succ [OF that] by simp
  show "optional t" if "init e k h nv sid (xs @ (n, PyNone) # ys) = Inr s" for s
    using succ [OF that] by simp
  show "\<exists>err. init e k h nv sid (xs @ (n, PyNone) # ys) = Inl err" if req: "\<not> optional t"
    using succ req by (cases "init e k h nv sid (xs @ (n, PyNone) # ys)") auto
  show "\<exists>m. init e k h nv sid (xs @ (n, PyNone) # ys) = Inl (RequiredInputMissing m)"
    if req: "\<not> optional t" and s1: "init_inputs e k h nv sid (xs @ (n, PyNone) # ys) = Inr s1" for s1
  proof -
    from init_inputs_Inr [OF s1] none obtain its where its: "populate_type_domains k (input_spec k) = Inr its"
      and types: "input_types s1 = its" and unbound: "input_vars s1 n = None"
      by blast
    from populate_required [OF its assms(1) req] obtain t1 where "(n, t1) \<in> set its" "\<not> optional t1"
      by blast
    with types unbound have "\<exists>m t'. required_inputs_present s1 (input_types s1) = Inl (RequiredInputMissing m)
           \<and> (m, t') \<in> set (input_types s1) \<and> \<not> optional t' \<and> input_vars s1 m = None"
      by (intro required_inputs_present_missing) auto
    then show ?thesis
      using s1 by (auto simp: init_def ensure_required_inputs_def)
  qed
qed

subsection \<open>Rebinding without inference\<close>

text \<open>
  C10. With \<^verbatim>\<open>type_inference=True\<close> and \<^verbatim>\<open>no_check_var_types=True\<close>,
  \<^verbatim>\<open>set_inputs\<close> binds and checks the required inputs, and infers nothing. Whenever
  no inference is run, a successful call leaves the list of outputs and every field of
  every Var other than its consumer set as they were. Inference runs exactly when it is
  requested and the type check is not skipped, and every successful call has passed the
  check of the required inputs.
\<close>

theorem set_inputs_without_inference:
  "(type_inference' \<and> no_check_var_types \<longrightarrow>
      set_inputs e k no_check_var_types type_inference' input_kvs s =
        (case validate_and_set_inputs e s input_kvs no_check_var_types of
           Inl err \<Rightarrow> Inl err
         | Inr s1 \<Rightarrow> ensure_required_inputs s1))
   \<and> (\<not> (type_inference' \<and> \<not> no_check_var_types)
        \<and> set_inputs e k no_check_var_types type_inference' input_kvs s = Inr s' \<longrightarrow>
          output_vars s' = output_vars s
          \<and> (\<forall>i. heap s' i = (heap s i)\<lparr>child_ops := child_ops (heap s' i)\<rparr>))
   \<and> (type_inference' \<and> \<not> no_check_var_types \<longrightarrow>
        set_inputs e k no_check_var_types type_inference' input_kvs s =
          (case validate_and_set_inputs e s input_kvs no_check_var_types of
             Inl err \<Rightarrow> Inl err
           | Inr s1 \<Rightarrow>
               (case type_value_inference e k False s1 of
                  Inl err \<Rightarrow> Inl err
                | Inr s2 \<Rightarrow> ensure_required_inputs s2)))
   \<and> (set_inputs e k no_check_var_types type_inference' input_kvs s = Inr s' \<longrightarrow>
        ensure_required_inputs s' = Inr s')"
proof (intro conjI impI)
  assume "type_inference' \<and> no_check_var_types"
  then show "set_inputs e k no_check_var_types type_inference' input_kvs s =
        (case validate_and_set_inputs e s input_kvs no_check_var_types of
           Inl err \<Rightarrow> Inl err
         | Inr s1 \<Rightarrow> ensure_required_inputs s1)"
    by (auto simp: set_inputs_def split: sum.splits)
next
  assume a: "\<not> (type_inference' \<and> \<not> no_check_var_types)
        \<and> set_inputs e k no_check_var_types type_inference' input_kvs s = Inr s'"
  then obtain s1 where s1: "validate_and_set_inputs e s input_kvs no_check_var_types = Inr s1"
    and e: "ensure_required_inputs s1 = Inr s'"
    by (auto simp: set_inputs_def split: sum.splits)
  from e have "s' = s1" by (simp add: ensure_required_inputs_Inr)
  with validate_and_set_inputs_frame [OF s1] have c: "consumers_only s s'" by simp
  from c show "output_vars s' = output_vars s" by (simp add: consumers_only_def)
  from c show "\<forall>i. heap s' i = (heap s i)\<lparr>child_ops := child_ops (heap s' i)\<rparr>"
    by (simp add: consumers_only_def)
next
  assume "type_inference' \<and> \<not> no_check_var_types"
  then show "set_inputs e k no_check_var_types type_inference' input_kvs s =
          (case validate_and_set_inputs e s input_kvs no_check_var_types of
             Inl err \<Rightarrow> Inl err
           | Inr s1 \<Rightarrow>
               (case type_value_inference e k False s1 of
                  Inl err \<Rightarrow> Inl err
                | Inr s2 \<Rightarrow> ensure_required_inputs s2))"
    by (auto simp: set_inputs_def split: sum.splits)
next
  assume "set_inputs e k no_check_var_types type_inference' input_kvs s = Inr s'"
  then show "ensure_required_inputs s' = Inr s'"
    by (auto simp: set_inputs_def ensure_required_inputs_Inr split: sum.splits)
qed

lemma init_bias_None:
  "init plain_env add_kind ex_heap 10 7
     ((ex_kwargs @ [(''x'', PyBind (BVar 0)), (''y'', PyBind (BVar 1))]) @ (''bias'', PyNone) # [])
   = Inr (add_state 0 1)"
  by (simp add: bind_defs ex_defs Let_def)

theorem none_keyword_is_ignored_witness:
  "(''bias'', opt_tensor) \<in> set (input_spec add_kind)
   \<and> ''bias'' \<notin> fst ` set ((ex_kwargs @ [(''x'', PyBind (BVar 0)), (''y'', PyBind (BVar 1))]) @ [])
   \<and> init plain_env add_kind ex_heap 10 7
        ((ex_kwargs @ [(''x'', PyBind (BVar 0)), (''y'', PyBind (BVar 1))]) @ (''bias'', PyNone) # [])
      = init plain_env add_kind ex_heap 10 7
          ((ex_kwargs @ [(''x'', PyBind (BVar 0)), (''y'', PyBind (BVar 1))]) @ [])
   \<and> init plain_env add_kind ex_heap 10 7
        ((ex_kwargs @ [(''x'', PyBind (BVar 0)), (''y'', PyBind (BVar 1))]) @ (''bias'', PyNone) # [])
      = Inr (add_state 0 1)
   \<and> input_vars (add_state 0 1) ''bias'' = None
   \<and> optional opt_tensor
   \<and> (''y'', req_tensor) \<in> set (input_spec add_kind)
   \<and> \<not> optional req_tensor
   \<and> ''y'' \<notin> fst ` set ((ex_kwargs @ [(''x'', PyBind (BVar 0))]) @ [])
   \<and> init_inputs plain_env add_kind ex_heap 10 7 ((ex_kwargs @ [(''x'', PyBind (BVar 0))]) @ (''y'', PyNone) # [])
      = Inr add_partial
   \<and> init plain_env add_kind ex_heap 10 7 ((ex_kwargs @ [(''x'', PyBind (BVar 0))]) @ (''y'', PyNone) # [])
      = Inl (RequiredInputMissing ''y'')"
proof -
  have a: "(''bias'', opt_tensor) \<in> set (input_spec add_kind)"
    and b: "''bias'' \<notin> fst ` set ((ex_kwargs @ [(''x'', PyBind (BVar 0)), (''y'', PyBind (BVar 1))]) @ [])"
    and c: "(''y'', req_tensor) \<in> set (input_spec add_kind)"
    and d: "''y'' \<notin> fst ` set ((ex_kwargs @ [(''x'', PyBind (BVar 0))]) @ [])"
    by (simp_all add: add_kind_def ex_kwargs_def)
  have ne: "''bias'' \<noteq> ''enclosing_block''" "''bias'' \<noteq> ''scopes''"
    "''y'' \<noteq> ''enclosing_block''" "''y'' \<noteq> ''scopes''"
    by simp_all
  have r: "\<not> optional req_tensor" by (simp add: req_tensor_def)
  have n2: "(ex_kwargs @ [(''x'', PyBind (BVar 0))]) @ (''y'', PyNone) # []
      = ex_kwargs @ [(''x'', PyBind (BVar 0)), (''y'', PyNone)]"
    by simp
  note w1 = none_keyword_is_ignored [OF a ne(1,2) b, of plain_env ex_heap 10 7]
  note w2 = none_keyword_is_ignored [OF c ne(3,4) d, of plain_env ex_heap 10 7, unfolded n2]
  have e1: "init plain_env add_kind ex_heap 10 7
        ((ex_kwargs @ [(''x'', PyBind (BVar 0)), (''y'', PyBind (BVar 1))]) @ (''bias'', PyNone) # [])
      = init plain_env add_kind ex_heap 10 7
          ((ex_kwargs @ [(''x'', PyBind (BVar 0)), (''y'', PyBind (BVar 1))]) @ [])"
    using w1 by blast
  have e2: "input_vars (add_state 0 1) ''bias'' = None \<and> optional opt_tensor"
    using w1 init_bias_None by blast
  have e3: "\<exists>m. init plain_env add_kind ex_heap 10 7 (ex_kwargs @ [(''x'', PyBind (BVar 0)), (''y'', PyNone)])
      = Inl (RequiredInputMissing m)"
    using w2 r init_inputs_x_only by blast
  show ?thesis
    unfolding n2
    using a b c d e1 e2 e3 r init_bias_None init_inputs_x_only init_x_only
    by blast
qed

lemma rebind_done_unchecked:
  "set_inputs plain_env add_kind True True [(''x'', Some (BVar 2))] add_done = Inr add_done_rebound"
  by (simp add: bind_defs ex_defs add_done_def add_done_rebound_def Let_def)

lemma rebind_done_checked:
  "set_inputs plain_env add_kind False True [(''x'', Some (BVar 2))] add_done
     = Inl (ValueInferenceDiffers (Some ''add_0''))"
  by (simp add: bind_defs ex_defs add_done_def gate_defs infer_defs reinfer_output_def check_value_def
      mark_outputs_def set_nonreplaceable_vars_upstream_def broadcast_shapes_def broadcast_to_def chunks_def)

theorem set_inputs_without_inference_witness:
  "set_inputs plain_env add_kind True True [(''x'', Some (BVar 2))] add_done = Inr add_done_rebound
   \<and> output_vars add_done_rebound = Some [10]
   \<and> output_vars add_done = Some [10]
   \<and> heap add_done_rebound 10 = heap add_done 10
   \<and> sym_val (heap add_done_rebound 10) = Some (int_vec [4, 6])
   \<and> ensure_required_inputs add_done_rebound = Inr add_done_rebound
   \<and> set_inputs plain_env add_kind False True [(''x'', Some (BVar 2))] add_done
       = Inl (ValueInferenceDiffers (Some ''add_0''))"
proof -
  note w1 = set_inputs_without_inference [of True True plain_env add_kind "[(''x'', Some (BVar 2))]"
      add_done add_done_rebound]
  note w2 = set_inputs_without_inference [of True False plain_env add_kind "[(''x'', Some (BVar 2))]"
      add_done add_done_rebound]
  have a: "output_vars add_done_rebound = output_vars add_done"
    and b: "ensure_required_inputs add_done_rebound = Inr add_done_rebound"
    using w1 rebind_done_unchecked by simp_all
  have c: "set_inputs plain_env add_kind False True [(''x'', Some (BVar 2))] add_done =
          (case validate_and_set_inputs plain_env add_done [(''x'', Some (BVar 2))] False of
             Inl err \<Rightarrow> Inl err
           | Inr s1 \<Rightarrow>
               (case type_value_inference plain_env add_kind False s1 of
                  Inl err \<Rightarrow> Inl err
                | Inr s2 \<Rightarrow> ensure_required_inputs s2))"
    using w2 by simp
  show ?thesis
    using a b c rebind_done_unchecked rebind_done_checked
    by (simp add: add_done_rebound_def add_done_def add_inferred_def sym_val_def)
qed

section \<open>Re-inference against an existing value\<close>

subsection \<open>Comparing arrays of one shape\<close>

lemma bshape_same: "bshape xs xs = Some xs"
  by (induction xs) auto

lemma broadcast_shapes_same: "broadcast_shapes sh sh = Some sh"
  by (simp add: broadcast_shapes_def bshape_same)

lemma chunks_Suc: "chunks (Suc d) n xs = chunks d n xs @ [take n (drop (d * n) xs)]"
  by (simp add: chunks_def)

lemma concat_chunks: "concat (chunks d n xs) = take (d * n) xs"
proof (induction d)
  case 0
  show ?case by (simp add: chunks_def)
next
  case (Suc d)
  have "take (d * n) xs @ take n (drop (d * n) xs) = take (d * n + n) xs"
    by (simp add: take_add)
  then show ?case by (simp add: chunks_Suc Suc.IH add.commute)
qed

lemma length_chunk:
  assumes "c \<in> set (chunks d n xs)" and "length xs = d * n"
  shows "length c = n"
proof -
  from assms(1) obtain i where i: "i < d" and c: "c = take n (drop (i * n) xs)"
    by (auto simp: chunks_def)
  have "Suc i * n \<le> d * n" using i by (intro mult_le_mono1) simp
  then have "i * n + n \<le> length xs" using assms(2) by simp
  then show ?thesis using c by simp
qed

lemma bcast_same: "length xs = prod_list sh \<Longrightarrow> bcast sh sh xs = xs"
proof (induction sh arbitrary: xs)
  case Nil
  show ?case by simp
next
  case (Cons d ds)
  have len: "length xs = d * prod_list ds" using Cons.prems by simp
  have "map (bcast ds ds) (chunks d (prod_list ds) xs) = chunks d (prod_list ds) xs"
    using Cons.IH length_chunk [OF _ len] by (intro map_idI) simp
  then show ?case by (simp add: concat_chunks len)
qed

lemma broadcast_to_same: "length xs = prod_list sh \<Longrightarrow> broadcast_to sh sh xs = xs"
  by (simp add: broadcast_to_def bcast_same)

lemma np_any_ne_same_shape:
  assumes "length a = prod_list sh" and "length b = prod_list sh"
  shows "np_any_ne (Array sh a) (Array sh b) = Inr (list_ex (\<lambda>(x, y). ne x y) (zip a b))"
  using assms by (simp add: broadcast_shapes_same broadcast_to_same)

lemma np_any_ne_same_shape_Inr: "\<exists>d. np_any_ne (Array sh a) (Array sh b) = Inr d"
  by (simp add: broadcast_shapes_same)

lemma np_any_ne_error: "np_any_ne x y = Inl err \<Longrightarrow> err = BroadcastError"
  by (cases x; cases y) (auto split: option.splits)

lemma compatible_is_spec:
  "is_compatible_symbolic_array (Array sa a) (Array sb b) = Inr (symbolic_compatible sa a sb b)"
proof (cases "sa = sb")
  case False
  then show ?thesis by (simp add: symbolic_compatible_def)
next
  case True
  have "list_all (\<lambda>(t, v). \<not> (\<not> is_symbolic t \<and> \<not> is_symbolic v \<and> ne t v)) (zip a b)
      \<longleftrightarrow> (\<forall>i < min (length a) (length b).
                  \<not> is_symbolic (a ! i) \<and> \<not> is_symbolic (b ! i) \<longrightarrow> \<not> ne (a ! i) (b ! i))"
    by (auto simp: list_all_length)
  with True show ?thesis by (simp add: symbolic_compatible_def)
qed

lemma incompatible_differs:
  assumes "\<not> symbolic_compatible sh a sh b"
  shows "list_ex (\<lambda>(x, y). ne x y) (zip a b)"
proof -
  from assms obtain i where "i < min (length a) (length b)" "ne (a ! i) (b ! i)"
    by (auto simp: symbolic_compatible_def)
  then have "(a ! i, b ! i) \<in> set (zip a b)" "ne (a ! i) (b ! i)"
    by (auto simp: set_zip)
  then show ?thesis by (auto simp: list_ex_iff)
qed

subsection \<open>The value check of a re-inference\<close>

lemma check_value_arrays:
  assumes "sym_val (heap s o') = Some (Array sb b)"
  shows "check_value False s o' (Some (t, Array sa a)) =
     (case np_any_ne (Array sa a) (Array sb b) of
        Inl err \<Rightarrow> Inl err
      | Inr differs \<Rightarrow>
          if differs \<and> \<not> symbolic_compatible sa a sb b
          then Inl (ValueInferenceDiffers (var_name (heap s o')))
          else Inr s)"
  using assms
  by (auto simp: check_value_def compatible_is_spec
      simp del: np_any_ne.simps is_compatible_symbolic_array.simps split: sum.splits)

lemma reinfer_output_keep:
  assumes "i < length (outputs s)"
      and "is_compatible_type e ty (sym_type (heap s (outputs s ! i)))"
  shows "reinfer_output e False s i ty v =
     (case check_value False s (outputs s ! i) v of
        Inl err \<Rightarrow> Inl err
      | Inr s2 \<Rightarrow> Inr (mark_outputs e s2))"
  using assms by (simp add: reinfer_output_def Let_def)

text \<open>
  C3, as amended. \<^verbatim>\<open>_is_compatible_symbolic_array\<close> is symbolic compatibility as the
  specification words it. In a re-inference that keeps the outputs, with both values
  present as arrays, the value error is raised exactly when numpy's broadcasting
  comparison finds a differing pair of entries and the arrays are not symbolic-compatible.
  For two arrays of one shape that is: exactly when they are not symbolic-compatible.
  Symbolic-compatible arrays are always accepted.
\<close>

theorem value_drift_iff_incompatible:
  assumes "i < length (outputs s)"
      and "is_compatible_type e ty (sym_type (heap s (outputs s ! i)))"
      and "sym_val (heap s (outputs s ! i)) = Some (Array sb b)"
  shows "is_compatible_symbolic_array (Array sa a) (Array sb b) = Inr (symbolic_compatible sa a sb b)
     \<and> ((\<exists>n. reinfer_output e False s i ty (Some (t, Array sa a)) = Inl (ValueInferenceDiffers n))
          \<longleftrightarrow> np_any_ne (Array sa a) (Array sb b) = Inr True \<and> \<not> symbolic_compatible sa a sb b)
     \<and> (sa = sb \<and> length a = prod_list sa \<and> length b = prod_list sb \<longrightarrow>
          ((\<exists>n. reinfer_output e False s i ty (Some (t, Array sa a)) = Inl (ValueInferenceDiffers n))
             \<longleftrightarrow> \<not> symbolic_compatible sa a sb b))
     \<and> (symbolic_compatible sa a sb b \<longrightarrow>
          reinfer_output e False s i ty (Some (t, Array sa a)) = Inr (mark_outputs e s))"
proof -
  note r = reinfer_output_keep [OF assms(1,2), of "Some (t, Array sa a)"]
  note c = check_value_arrays [OF assms(3), of t sa a]
  have iff: "(\<exists>n. reinfer_output e False s i ty (Some (t, Array sa a)) = Inl (ValueInferenceDiffers n))
          \<longleftrightarrow> np_any_ne (Array sa a) (Array sb b) = Inr True \<and> \<not> symbolic_compatible sa a sb b"
    unfolding r c
    by (cases "np_any_ne (Array sa a) (Array sb b)")
      (auto simp del: np_any_ne.simps dest: np_any_ne_error)
  have same: "(\<exists>n. reinfer_output e False s i ty (Some (t, Array sa a)) = Inl (ValueInferenceDiffers n))
             \<longleftrightarrow> \<not> symbolic_compatible sa a sb b"
    if "sa = sb \<and> length a = prod_list sa \<and> length b = prod_list sb"
  proof -
    have "np_any_ne (Array sa a) (Array sb b) = Inr (list_ex (\<lambda>(x, y). ne x y) (zip a b))"
      using that np_any_ne_same_shape [of a sa b] by (simp del: np_any_ne.simps)
    moreover have "list_ex (\<lambda>(x, y). ne x y) (zip a b)" if "\<not> symbolic_compatible sa a sb b"
      using that \<open>sa = sb \<and> _\<close> incompatible_differs by blast
    ultimately show ?thesis unfolding iff by (auto simp del: np_any_ne.simps)
  qed
  have acc: "reinfer_output e False s i ty (Some (t, Array sa a)) = Inr (mark_outputs e s)"
    if "symbolic_compatible sa a sb b"
  proof -
    from that have "sa = sb" by (simp add: symbolic_compatible_def)
    then obtain d where "np_any_ne (Array sa a) (Array sb b) = Inr d"
      using np_any_ne_same_shape_Inr by blast
    then show ?thesis unfolding r c using that by (simp del: np_any_ne.simps)
  qed
  show ?thesis using compatible_is_spec iff same acc by blast
qed

lemmas reinfer_defs = reinfer_output_def check_value_def mark_outputs_def
  set_nonreplaceable_vars_upstream_def outputs_def sym_val_def broadcast_shapes_def broadcast_to_def
  chunks_def out_state_def plain_env_def Let_def

lemma mark_out_state: "mark_outputs plain_env (out_state t v) = out_state t v"
  by (simp add: reinfer_defs)

text \<open>
  The claim as the specification states it fails: a 0-dimensional array holding 5 and a
  1-dimensional array holding 5 have different shapes, so they are not
  symbolic-compatible, but the comparison broadcasts them, finds no difference, and the
  re-inference accepts the value.
\<close>

theorem broadcast_equal_counterexample:
  "reinfer_output plain_env False (out_state (Tensor Int32 [Dim 1]) (Array [1] [Conc 5])) 0
       (Tensor Int32 [Dim 1]) (Some (Tensor Int32 [Dim 1], Array [] [Conc 5]))
     = Inr (out_state (Tensor Int32 [Dim 1]) (Array [1] [Conc 5]))
   \<and> is_compatible_symbolic_array (Array [] [Conc 5]) (Array [1] [Conc 5]) = Inr False
   \<and> \<not> symbolic_compatible [] [Conc 5] [1] [Conc 5]"
  by (simp add: reinfer_defs symbolic_compatible_def)

theorem value_drift_iff_incompatible_witness:
  "0 < length (outputs (out_state (Tensor Int32 [Dim 2]) (Array [2] [Conc 4, Conc 6])))
   \<and> is_compatible_type plain_env (Tensor Int32 [Dim 2])
        (sym_type (heap (out_state (Tensor Int32 [Dim 2]) (Array [2] [Conc 4, Conc 6]))
           (outputs (out_state (Tensor Int32 [Dim 2]) (Array [2] [Conc 4, Conc 6])) ! 0)))
   \<and> sym_val (heap (out_state (Tensor Int32 [Dim 2]) (Array [2] [Conc 4, Conc 6]))
        (outputs (out_state (Tensor Int32 [Dim 2]) (Array [2] [Conc 4, Conc 6])) ! 0))
       = Some (Array [2] [Conc 4, Conc 6])
   \<and> length [Conc 4, Conc 7] = prod_list [2::nat]
   \<and> is_compatible_symbolic_array (Array [2] [Conc 4, Conc 7]) (Array [2] [Conc 4, Conc 6]) = Inr False
   \<and> reinfer_output plain_env False (out_state (Tensor Int32 [Dim 2]) (Array [2] [Conc 4, Conc 6])) 0
        (Tensor Int32 [Dim 2]) (Some (Tensor Int32 [Dim 2], Array [2] [Conc 4, Conc 7]))
       = Inl (ValueInferenceDiffers (Some ''out''))
   \<and> is_compatible_symbolic_array (Array [2] [Symb ''s1'', Conc 6]) (Array [2] [Conc 4, Conc 6]) = Inr True
   \<and> reinfer_output plain_env False (out_state (Tensor Int32 [Dim 2]) (Array [2] [Conc 4, Conc 6])) 0
        (Tensor Int32 [Dim 2]) (Some (Tensor Int32 [Dim 2], Array [2] [Symb ''s1'', Conc 6]))
       = Inr (out_state (Tensor Int32 [Dim 2]) (Array [2] [Conc 4, Conc 6]))"
proof -
  define st where "st = out_state (Tensor Int32 [Dim 2]) (Array [2] [Conc 4, Conc 6])"
  have h1: "0 < length (outputs st)"
    and h2: "is_compatible_type plain_env (Tensor Int32 [Dim 2]) (sym_type (heap st (outputs st ! 0)))"
    and h3: "sym_val (heap st (outputs st ! 0)) = Some (Array [2] [Conc 4, Conc 6])"
    by (simp_all add: st_def out_state_def outputs_def plain_env_def sym_val_def)
  note w1 = value_drift_iff_incompatible [OF h1 h2 h3, of "[2]" "[Conc 4, Conc 7]" "Tensor Int32 [Dim 2]"]
  note w2 = value_drift_iff_incompatible [OF h1 h2 h3, of "[2]" "[Symb ''s1'', Conc 6]" "Tensor Int32 [Dim 2]"]
  have c1: "is_compatible_symbolic_array (Array [2] [Conc 4, Conc 7]) (Array [2] [Conc 4, Conc 6]) = Inr False"
    and c2: "is_compatible_symbolic_array (Array [2] [Symb ''s1'', Conc 6]) (Array [2] [Conc 4, Conc 6]) = Inr True"
    by simp_all
  have n1: "\<not> symbolic_compatible [2] [Conc 4, Conc 7] [2] [Conc 4, Conc 6]"
    and n2: "symbolic_compatible [2] [Symb ''s1'', Conc 6] [2] [Conc 4, Conc 6]"
    using w1 w2 c1 c2 by simp_all
  have wf: "[2] = [2::nat] \<and> length [Conc 4, Conc 7] = prod_list [2::nat]
      \<and> length [Conc 4, Conc 6] = prod_list [2::nat]"
    by simp
  have "\<exists>n. reinfer_output plain_env False st 0 (Tensor Int32 [Dim 2])
        (Some (Tensor Int32 [Dim 2], Array [2] [Conc 4, Conc 7])) = Inl (ValueInferenceDiffers n)"
    using w1 n1 wf by blast
  then have r1: "reinfer_output plain_env False st 0 (Tensor Int32 [Dim 2])
        (Some (Tensor Int32 [Dim 2], Array [2] [Conc 4, Conc 7])) = Inl (ValueInferenceDiffers (Some ''out''))"
    by (auto simp: st_def reinfer_defs split: if_splits)
  have r2: "reinfer_output plain_env False st 0 (Tensor Int32 [Dim 2])
        (Some (Tensor Int32 [Dim 2], Array [2] [Symb ''s1'', Conc 6])) = Inr st"
    using w2 n2 by (simp add: st_def mark_out_state)
  show ?thesis
    using h1 h2 h3 c1 c2 r1 r2 unfolding st_def by simp
qed

section \<open>Creating the outputs\<close>

subsection \<open>The rank of list elements\<close>

lemma new_var_rank_error:
  "new_var e k s i n t v = Inl (ListRankUnsupported r) \<longleftrightarrow>
     (n = [] \<or> op_name s \<noteq> None)
     \<and> (\<exists>et len dyn sh. t = ListT et len dyn \<and> elem_shape (ListVar et len dyn) = Some sh
           \<and> length sh = r \<and> 5 \<le> r)"
  by (cases t) (auto simp: new_var_def Let_def split: if_splits option.splits prod.splits)

lemma new_var_rank_ok:
  "new_var e k s i n t v = Inr nv \<Longrightarrow> elem_shape (var_cls nv) = Some sh \<Longrightarrow> length sh \<le> 4"
  by (cases t) (auto simp: new_var_def Let_def split: if_splits option.splits prod.splits)

lemma create_outputs_rank:
  assumes "create_outputs e k s i xs = (s', err)"
      and "\<forall>o' \<in> set (outputs s). o' < next_var s
             \<and> (\<forall>sh. elem_shape (var_cls (heap s o')) = Some sh \<longrightarrow> length sh \<le> 4)"
  shows "\<forall>o' \<in> set (outputs s'). o' < next_var s'
             \<and> (\<forall>sh. elem_shape (var_cls (heap s' o')) = Some sh \<longrightarrow> length sh \<le> 4)"
  using assms
proof (induction xs arbitrary: s i)
  case Nil
  then show ?case by simp
next
  case (Cons x xs)
  obtain n t v where x: "x = (n, t, v)" by (cases x)
  show ?case
  proof (cases "new_var e k s i n t v")
    case (Inl err')
    with Cons.prems x show ?thesis by simp
  next
    case (Inr nv)
    have inv: "\<forall>o' \<in> set (outputs (append_output s nv)). o' < next_var (append_output s nv)
        \<and> (\<forall>sh. elem_shape (var_cls (heap (append_output s nv) o')) = Some sh \<longrightarrow> length sh \<le> 4)"
      using Cons.prems(2) new_var_rank_ok [OF Inr] by auto
    have run: "create_outputs e k (append_output s nv) (Suc i) xs = (s', err)"
      using Cons.prems(1) x Inr by simp
    show ?thesis by (rule Cons.IH [OF run inv])
  qed
qed

lemma create_outputs_rank_error:
  assumes "create_outputs e k s i xs = (s', Some (ListRankUnsupported r))"
  shows "5 \<le> r \<and> (\<exists>n et len dyn v sh. (n, ListT et len dyn, v) \<in> set xs
           \<and> elem_shape (ListVar et len dyn) = Some sh \<and> length sh = r)"
  using assms
proof (induction xs arbitrary: s i)
  case Nil
  then show ?case by simp
next
  case (Cons x xs)
  obtain n t v where x: "x = (n, t, v)" by (cases x)
  show ?case
  proof (cases "new_var e k s i n t v")
    case (Inl err')
    with Cons.prems x have "new_var e k s i n t v = Inl (ListRankUnsupported r)" by simp
    then show ?thesis unfolding new_var_rank_error using x by fastforce
  next
    case (Inr nv)
    have run: "create_outputs e k (append_output s nv) (Suc i) xs = (s', Some (ListRankUnsupported r))"
      using Cons.prems(1) x Inr by simp
    from Cons.IH [OF run] show ?thesis by fastforce
  qed
qed

text \<open>
  C7. For a list-typed output whose element shape is known, creating the output raises
  the rank error exactly when the element rank exceeds 4, and then with that rank. The
  loop of a first inference never leaves a list output of such a rank among the outputs,
  whether it ends normally or with an exception; when it ends with the rank error, some
  inferred list type has that rank, which is at least 5; and after a first inference
  that succeeds every list output has an element rank of at most 4.
\<close>

theorem list_rank_limit:
  "((n = [] \<or> op_name s \<noteq> None) \<and> elem_shape (ListVar et len dyn) = Some sh \<longrightarrow>
      ((\<exists>r. new_var e k s i n (ListT et len dyn) v = Inl (ListRankUnsupported r)) \<longleftrightarrow> 4 < length sh)
      \<and> (4 < length sh \<longrightarrow> new_var e k s i n (ListT et len dyn) v = Inl (ListRankUnsupported (length sh))))
   \<and> (create_outputs e k (s\<lparr>output_vars := Some []\<rparr>) 0 xs = (s', err) \<longrightarrow>
        (\<forall>o' \<in> set (outputs s'). \<forall>sh'. elem_shape (var_cls (heap s' o')) = Some sh' \<longrightarrow> length sh' \<le> 4)
        \<and> (\<forall>r. err = Some (ListRankUnsupported r) \<longrightarrow>
              5 \<le> r \<and> (\<exists>n' et' len' dyn' v' sh'. (n', ListT et' len' dyn', v') \<in> set xs
                          \<and> elem_shape (ListVar et' len' dyn') = Some sh' \<and> length sh' = r)))
   \<and> (output_vars s = None \<and> type_value_inference e k overwrite_output s = Inr s'' \<longrightarrow>
        (\<forall>o' \<in> set (outputs s''). \<forall>sh'. elem_shape (var_cls (heap s'' o')) = Some sh' \<longrightarrow> length sh' \<le> 4))"
proof (intro conjI impI)
  assume a: "(n = [] \<or> op_name s \<noteq> None) \<and> elem_shape (ListVar et len dyn) = Some sh"
  show "(\<exists>r. new_var e k s i n (ListT et len dyn) v = Inl (ListRankUnsupported r)) \<longleftrightarrow> 4 < length sh"
    unfolding new_var_rank_error using a by auto
  show "new_var e k s i n (ListT et len dyn) v = Inl (ListRankUnsupported (length sh))" if "4 < length sh"
    unfolding new_var_rank_error using a that by auto
next
  assume run: "create_outputs e k (s\<lparr>output_vars := Some []\<rparr>) 0 xs = (s', err)"
  have "\<forall>o' \<in> set (outputs s'). o' < next_var s'
             \<and> (\<forall>sh. elem_shape (var_cls (heap s' o')) = Some sh \<longrightarrow> length sh \<le> 4)"
    by (rule create_outputs_rank [OF run]) (simp add: outputs_def)
  then show "\<forall>o' \<in> set (outputs s'). \<forall>sh'. elem_shape (var_cls (heap s' o')) = Some sh' \<longrightarrow> length sh' \<le> 4"
    by blast
  show "\<forall>r. err = Some (ListRankUnsupported r) \<longrightarrow>
              5 \<le> r \<and> (\<exists>n' et' len' dyn' v' sh'. (n', ListT et' len' dyn', v') \<in> set xs
                          \<and> elem_shape (ListVar et' len' dyn') = Some sh' \<and> length sh' = r)"
    using create_outputs_rank_error run by blast
next
  assume a: "output_vars s = None \<and> type_value_inference e k overwrite_output s = Inr s''"
  then obtain xs where run: "create_outputs e k (s\<lparr>output_vars := Some []\<rparr>) 0 xs = (s'', None)"
    by (auto simp: type_value_inference_def Let_def split: sum.splits prod.splits option.splits)
  have "\<forall>o' \<in> set (outputs s''). o' < next_var s''
             \<and> (\<forall>sh. elem_shape (var_cls (heap s'' o')) = Some sh \<longrightarrow> length sh \<le> 4)"
    by (rule create_outputs_rank [OF run]) (simp add: outputs_def)
  then show "\<forall>o' \<in> set (outputs s''). \<forall>sh'. elem_shape (var_cls (heap s'' o')) = Some sh' \<longrightarrow> length sh' \<le> 4"
    by blast
qed

lemmas list_defs = list_kind_def list_made_def pair_op_def type_value_inference_def inputs_of_def
  auto_val_def call_value_inference_def get_output_names_def new_var_def append_output_def outputs_def Let_def

lemma infer_list_5:
  "type_value_inference plain_env (list_kind [Dim 1, Dim 1, Dim 1, Dim 1, Dim 1]) False pair_op
     = Inl (ListRankUnsupported 5)"
  by (simp add: list_defs)

lemma infer_list_4:
  "type_value_inference plain_env (list_kind [Dim 1, Dim 1, Dim 1, Dim 1]) False pair_op
     = Inr (list_made [Dim 1, Dim 1, Dim 1, Dim 1])"
  by (simp add: list_defs)

theorem list_rank_limit_witness:
  "op_name pair_op \<noteq> None
   \<and> elem_shape (ListVar (Tensor Int32 [Dim 1, Dim 1, Dim 1, Dim 1, Dim 1]) 0 True)
       = Some [Dim 1, Dim 1, Dim 1, Dim 1, Dim 1]
   \<and> new_var plain_env (list_kind [Dim 1, Dim 1, Dim 1, Dim 1, Dim 1]) pair_op 0 []
        (ListT (Tensor Int32 [Dim 1, Dim 1, Dim 1, Dim 1, Dim 1]) 0 True) None
       = Inl (ListRankUnsupported 5)
   \<and> create_outputs plain_env (list_kind [Dim 1, Dim 1, Dim 1, Dim 1, Dim 1]) (pair_op\<lparr>output_vars := Some []\<rparr>) 0
        [([], ListT (Tensor Int32 [Dim 1, Dim 1, Dim 1, Dim 1, Dim 1]) 0 True, None)]
       = (pair_op\<lparr>output_vars := Some []\<rparr>, Some (ListRankUnsupported 5))
   \<and> outputs (pair_op\<lparr>output_vars := Some []\<rparr>) = []
   \<and> type_value_inference plain_env (list_kind [Dim 1, Dim 1, Dim 1, Dim 1, Dim 1]) False pair_op
       = Inl (ListRankUnsupported 5)
   \<and> output_vars pair_op = None
   \<and> type_value_inference plain_env (list_kind [Dim 1, Dim 1, Dim 1, Dim 1]) False pair_op
       = Inr (list_made [Dim 1, Dim 1, Dim 1, Dim 1])
   \<and> outputs (list_made [Dim 1, Dim 1, Dim 1, Dim 1]) = [10]
   \<and> elem_shape (var_cls (heap (list_made [Dim 1, Dim 1, Dim 1, Dim 1]) 10)) = Some [Dim 1, Dim 1, Dim 1, Dim 1]"
proof -
  note w1 = list_rank_limit [of "[]" pair_op "Tensor Int32 [Dim 1, Dim 1, Dim 1, Dim 1, Dim 1]" 0 True
      "[Dim 1, Dim 1, Dim 1, Dim 1, Dim 1]" plain_env "list_kind [Dim 1, Dim 1, Dim 1, Dim 1, Dim 1]" 0 None
      "[([], ListT (Tensor Int32 [Dim 1, Dim 1, Dim 1, Dim 1, Dim 1]) 0 True, None)]"
      "pair_op\<lparr>output_vars := Some []\<rparr>" "Some (ListRankUnsupported 5)" False
      "list_made [Dim 1, Dim 1, Dim 1, Dim 1]"]
  have nv: "new_var plain_env (list_kind [Dim 1, Dim 1, Dim 1, Dim 1, Dim 1]) pair_op 0 []
        (ListT (Tensor Int32 [Dim 1, Dim 1, Dim 1, Dim 1, Dim 1]) 0 True) None
       = Inl (ListRankUnsupported (length [Dim 1, Dim 1, Dim 1, Dim 1, Dim 1]))"
    using w1 by simp
  note w2 = list_rank_limit [of "[]" pair_op "Tensor Int32 [Dim 1, Dim 1, Dim 1, Dim 1]" 0 True
      "[Dim 1, Dim 1, Dim 1, Dim 1]" plain_env "list_kind [Dim 1, Dim 1, Dim 1, Dim 1]" 0 None
      "[]" "pair_op\<lparr>output_vars := Some []\<rparr>" None False
      "list_made [Dim 1, Dim 1, Dim 1, Dim 1]"]
  have ok: "\<forall>o' \<in> set (outputs (list_made [Dim 1, Dim 1, Dim 1, Dim 1])).
      \<forall>sh'. elem_shape (var_cls (heap (list_made [Dim 1, Dim 1, Dim 1, Dim 1]) o')) = Some sh'
        \<longrightarrow> length sh' \<le> 4"
    using w2 infer_list_4 by (simp add: pair_op_def)
  show ?thesis
    using nv ok infer_list_5 infer_list_4
    by (simp add: list_defs)
qed

section \<open>Rebinding a slot\<close>

subsection \<open>Consumer sets under rebinding\<close>




lemma self_id_add_child_op [simp]: "self_id (add_child_op s v) = self_id s"
  by (simp add: add_child_op_def)


lemma self_id_remove_child_op [simp]: "self_id (remove_child_op s v nc) = self_id s"
  by (simp add: remove_child_op_def)

















section \<open>The outputs when value inference is unavailable\<close>

lemma markers_only_refl: "markers_only s s"
  by (simp add: markers_only_def)

lemma markers_only_trans: "markers_only s s' \<Longrightarrow> markers_only s' s'' \<Longrightarrow> markers_only s s''"
  unfolding markers_only_def
proof (intro conjI allI)
  fix i
  assume a: "input_types s' = input_types s \<and> input_vars s' = input_vars s \<and> output_vars s' = output_vars s
     \<and> next_var s' = next_var s \<and> self_id s' = self_id s \<and> op_name s' = op_name s
     \<and> (\<forall>i. heap s' i = (heap s i)\<lparr>nonreplaceable_vars_upstream := nonreplaceable_vars_upstream (heap s' i)\<rparr>)"
    and b: "input_types s'' = input_types s' \<and> input_vars s'' = input_vars s' \<and> output_vars s'' = output_vars s'
     \<and> next_var s'' = next_var s' \<and> self_id s'' = self_id s' \<and> op_name s'' = op_name s'
     \<and> (\<forall>i. heap s'' i = (heap s' i)\<lparr>nonreplaceable_vars_upstream := nonreplaceable_vars_upstream (heap s'' i)\<rparr>)"
  have 1: "heap s' i = (heap s i)\<lparr>nonreplaceable_vars_upstream := nonreplaceable_vars_upstream (heap s' i)\<rparr>"
    using a by blast
  have 2: "heap s'' i = (heap s' i)\<lparr>nonreplaceable_vars_upstream := nonreplaceable_vars_upstream (heap s'' i)\<rparr>"
    using b by blast
  show "heap s'' i = (heap s i)\<lparr>nonreplaceable_vars_upstream := nonreplaceable_vars_upstream (heap s'' i)\<rparr>"
    by (subst 2, subst 1) simp
qed (simp_all)

lemma markers_only_fields:
  assumes "markers_only s s'"
  shows "sym_type (heap s' v) = sym_type (heap s v)"
    and "sym_val_obj (heap s' v) = sym_val_obj (heap s v)"
    and "sym_val (heap s' v) = sym_val (heap s v)"
    and "var_name (heap s' v) = var_name (heap s v)"
    and "var_cls (heap s' v) = var_cls (heap s v)"
    and "outputs s' = outputs s"
proof -
  have h: "heap s' v = (heap s v)\<lparr>nonreplaceable_vars_upstream := nonreplaceable_vars_upstream (heap s' v)\<rparr>"
    using assms unfolding markers_only_def by blast
  show "sym_type (heap s' v) = sym_type (heap s v)" by (subst h) simp
  show o: "sym_val_obj (heap s' v) = sym_val_obj (heap s v)" by (subst h) simp
  show "sym_val (heap s' v) = sym_val (heap s v)" by (simp add: sym_val_def o)
  show "var_name (heap s' v) = var_name (heap s v)" by (subst h) simp
  show "var_cls (heap s' v) = var_cls (heap s v)" by (subst h) simp
  show "outputs s' = outputs s" using assms by (simp add: markers_only_def outputs_def)
qed

lemma markers_only_set_nonreplaceable:
  "markers_only s (set_nonreplaceable_vars_upstream e s o')"
  by (simp add: markers_only_def set_nonreplaceable_vars_upstream_def)

lemma markers_only_foldl:
  "markers_only s (foldl (set_nonreplaceable_vars_upstream e) s os)"
proof (induction os arbitrary: s)
  case Nil
  show ?case by (simp add: markers_only_refl)
next
  case (Cons o' os)
  show ?case
    using markers_only_trans [OF markers_only_set_nonreplaceable Cons.IH] by simp
qed

lemma markers_only_mark_outputs: "markers_only s (mark_outputs e s)"
  by (simp add: mark_outputs_def markers_only_foldl)

lemma check_value_None [simp]: "check_value ow s o' None = Inr s"
  by (simp add: check_value_def)

lemma check_value_keep:
  "check_value False s o' v = Inr s' \<Longrightarrow> s' = s"
  by (auto simp: check_value_def simp del: np_any_ne.simps is_compatible_symbolic_array.simps
      split: option.splits prod.splits sum.splits if_splits)

lemma reinfer_output_keep_markers:
  "reinfer_output e False s i t v = Inr s' \<Longrightarrow> markers_only s s'"
  by (auto simp: reinfer_output_def Let_def markers_only_mark_outputs
      dest!: check_value_keep split: if_splits sum.splits)

lemma check_outputs_keep_markers:
  "check_outputs e False s i xs = Inr s' \<Longrightarrow> markers_only s s'"
proof (induction xs arbitrary: s i)
  case Nil
  then show ?case by (simp add: markers_only_refl)
next
  case (Cons x xs)
  obtain t v where x: "x = (t, v)" by (cases x)
  from Cons.prems x obtain s1 where 1: "reinfer_output e False s i t v = Inr s1"
    and 2: "check_outputs e False s1 (Suc i) xs = Inr s'"
    by (auto split: sum.splits)
  show ?case
    using markers_only_trans [OF reinfer_output_keep_markers [OF 1] Cons.IH [OF 2]] .
qed

lemma reinfer_output_None_keep:
  "reinfer_output e False s i t None =
     (if length (outputs s) \<le> i then Inl IndexError
      else if \<not> is_compatible_type e t (sym_type (heap s (outputs s ! i)))
      then Inl (OutputTypeChanges (var_name (heap s (outputs s ! i))))
      else Inr (mark_outputs e s))"
  by (simp add: reinfer_output_def Let_def)

lemma reinfer_output_None_overwrite:
  "reinfer_output e True s i t None =
     (if length (outputs s) \<le> i then Inl IndexError
      else Inr (mark_outputs e
         (s\<lparr>heap := (heap s)(outputs s ! i := (heap s (outputs s ! i))\<lparr>sym_type := t, sym_val_obj := None\<rparr>)\<rparr>)))"
  by (simp add: reinfer_output_def Let_def)

lemma check_outputs_None_keep_error:
  assumes "check_outputs e False s i xs = Inl err" and "\<forall>x \<in> set xs. snd x = None"
  shows "err = IndexError \<or> (\<exists>n. err = OutputTypeChanges n)"
  using assms
proof (induction xs arbitrary: s i)
  case Nil
  then show ?case by simp
next
  case (Cons x xs)
  obtain t where x: "x = (t, None)" using Cons.prems(2) by (cases x) auto
  show ?case
  proof (cases "reinfer_output e False s i t None")
    case (Inl err')
    then have "err' = err" using Cons.prems(1) x by simp
    with Inl show ?thesis by (auto simp: reinfer_output_None_keep split: if_splits)
  next
    case (Inr s1)
    then have "check_outputs e False s1 (Suc i) xs = Inl err" using Cons.prems(1) x by simp
    from Cons.IH [OF this] Cons.prems(2) show ?thesis by simp
  qed
qed

lemma check_outputs_None_keep_success:
  assumes "\<forall>x \<in> set xs. snd x = None"
      and "i + length xs \<le> length (outputs s)"
      and "\<forall>j < length xs. is_compatible_type e (fst (xs ! j)) (sym_type (heap s (outputs s ! (i + j))))"
  shows "\<exists>s'. check_outputs e False s i xs = Inr s'"
  using assms
proof (induction xs arbitrary: s i)
  case Nil
  then show ?case by simp
next
  case (Cons x xs)
  obtain t where x: "x = (t, None)" using Cons.prems(1) by (cases x) auto
  have c0: "is_compatible_type e t (sym_type (heap s (outputs s ! i)))"
    using Cons.prems(3) [rule_format, of 0] x by simp
  have step: "reinfer_output e False s i t None = Inr (mark_outputs e s)"
    using Cons.prems(2) c0 by (simp add: reinfer_output_None_keep)
  note m = markers_only_fields [OF markers_only_mark_outputs [of s e]]
  have "\<exists>s'. check_outputs e False (mark_outputs e s) (Suc i) xs = Inr s'"
  proof (rule Cons.IH)
    show "\<forall>x \<in> set xs. snd x = None" using Cons.prems(1) by simp
    show "Suc i + length xs \<le> length (outputs (mark_outputs e s))"
      using Cons.prems(2) by (simp add: m)
    show "\<forall>j < length xs. is_compatible_type e (fst (xs ! j))
        (sym_type (heap (mark_outputs e s) (outputs (mark_outputs e s) ! (Suc i + j))))"
      using Cons.prems(3) [rule_format, of "Suc j" for j] by (simp add: m)
  qed
  then show ?case using step x by simp
qed

lemma check_outputs_None_overwrite:
  assumes "\<forall>x \<in> set xs. snd x = None"
      and "i + length xs \<le> length (outputs s)"
  shows "\<exists>s'. check_outputs e True s i xs = Inr s' \<and> outputs s' = outputs s
           \<and> (\<forall>j < length xs. sym_val_obj (heap s' (outputs s ! (i + j))) = None)
           \<and> (\<forall>v. sym_val_obj (heap s v) = None \<longrightarrow> sym_val_obj (heap s' v) = None)"
  using assms
proof (induction xs arbitrary: s i)
  case Nil
  then show ?case by simp
next
  case (Cons x xs)
  obtain t where x: "x = (t, None)" using Cons.prems(1) by (cases x) auto
  define s1 where "s1 = s\<lparr>heap := (heap s)(outputs s ! i := (heap s (outputs s ! i))\<lparr>sym_type := t, sym_val_obj := None\<rparr>)\<rparr>"
  define s2 where "s2 = mark_outputs e s1"
  have step: "reinfer_output e True s i t None = Inr s2"
    using Cons.prems(2) by (simp add: reinfer_output_None_overwrite s1_def s2_def)
  note m = markers_only_fields [OF markers_only_mark_outputs [of s1 e], folded s2_def]
  have o1: "outputs s1 = outputs s" by (simp add: s1_def outputs_def)
  have o2: "outputs s2 = outputs s" by (simp add: m o1)
  have v2: "sym_val_obj (heap s2 v) = (if v = outputs s ! i then None else sym_val_obj (heap s v))" for v
    by (simp add: m s1_def)
  have "\<exists>s'. check_outputs e True s2 (Suc i) xs = Inr s' \<and> outputs s' = outputs s2
           \<and> (\<forall>j < length xs. sym_val_obj (heap s' (outputs s2 ! (Suc i + j))) = None)
           \<and> (\<forall>v. sym_val_obj (heap s2 v) = None \<longrightarrow> sym_val_obj (heap s' v) = None)"
  proof (rule Cons.IH)
    show "\<forall>x \<in> set xs. snd x = None" using Cons.prems(1) by simp
    show "Suc i + length xs \<le> length (outputs s2)" using Cons.prems(2) by (simp add: o2)
  qed
  then obtain s' where run: "check_outputs e True s2 (Suc i) xs = Inr s'"
    and os: "outputs s' = outputs s"
    and later: "\<forall>j < length xs. sym_val_obj (heap s' (outputs s ! (Suc i + j))) = None"
    and keep: "\<forall>v. sym_val_obj (heap s2 v) = None \<longrightarrow> sym_val_obj (heap s' v) = None"
    unfolding o2 by blast
  have all: "sym_val_obj (heap s' (outputs s ! (i + j))) = None" if "j < length (x # xs)" for j
  proof (cases j)
    case 0
    then show ?thesis using keep v2 by simp
  next
    case (Suc j')
    then show ?thesis using later that by simp
  qed
  have keep': "sym_val_obj (heap s' v) = None" if "sym_val_obj (heap s v) = None" for v
    using keep v2 that by simp
  show ?case
    using run os all keep' step x by simp
qed

lemma check_outputs_None_overwrite_short:
  assumes "\<forall>x \<in> set xs. snd x = None"
      and "length (outputs s) < i + length xs" and "i \<le> length (outputs s)"
  shows "check_outputs e True s i xs = Inl IndexError"
  using assms
proof (induction xs arbitrary: s i)
  case Nil
  then show ?case by simp
next
  case (Cons x xs)
  obtain t where x: "x = (t, None)" using Cons.prems(1) by (cases x) auto
  show ?case
  proof (cases "length (outputs s) \<le> i")
    case True
    then show ?thesis using x by (simp add: reinfer_output_None_overwrite)
  next
    case False
    define s1 where "s1 = s\<lparr>heap := (heap s)(outputs s ! i := (heap s (outputs s ! i))\<lparr>sym_type := t, sym_val_obj := None\<rparr>)\<rparr>"
    define s2 where "s2 = mark_outputs e s1"
    have step: "reinfer_output e True s i t None = Inr s2"
      using False by (simp add: reinfer_output_None_overwrite s1_def s2_def)
    have o2: "outputs s2 = outputs s"
      using markers_only_fields(6) [OF markers_only_mark_outputs [of s1 e]]
      by (simp add: s2_def s1_def outputs_def)
    have "check_outputs e True s2 (Suc i) xs = Inl IndexError"
      using Cons.prems False by (intro Cons.IH) (simp_all add: o2)
    then show ?thesis using step x by simp
  qed
qed

lemma new_var_errors:
  "new_var e k s i n t v = Inl err \<Longrightarrow>
     err = TypeError \<or> err = AttributeError \<or> (\<exists>r. err = ListRankUnsupported r)"
  by (cases t) (auto simp: new_var_def Let_def split: if_splits option.splits prod.splits)

lemma new_var_plain:
  "op_name s \<noteq> None \<Longrightarrow> \<not> is_list t \<Longrightarrow> \<not> is_complex_tensor t \<Longrightarrow> \<exists>nv. new_var e k s i n t v = Inr nv"
  by (cases t) (auto simp: new_var_def Let_def)

lemma op_name_append_output [simp]: "op_name (append_output s v) = op_name s"
  by (simp add: append_output_def)

lemma create_outputs_errors:
  "create_outputs e k s i xs = (s', Some err) \<Longrightarrow>
     err = TypeError \<or> err = AttributeError \<or> (\<exists>r. err = ListRankUnsupported r)"
proof (induction xs arbitrary: s i)
  case Nil
  then show ?case by simp
next
  case (Cons x xs)
  obtain n t v where x: "x = (n, t, v)" by (cases x)
  show ?case
  proof (cases "new_var e k s i n t v")
    case (Inl err')
    with Cons.prems x have "err' = err" by simp
    with Inl new_var_errors show ?thesis by blast
  next
    case (Inr nv)
    with Cons.prems x have "create_outputs e k (append_output s nv) (Suc i) xs = (s', Some err)" by simp
    then show ?thesis by (rule Cons.IH)
  qed
qed

lemma create_outputs_plain:
  assumes "op_name s \<noteq> None"
      and "\<forall>x \<in> set xs. \<not> is_list (fst (snd x)) \<and> \<not> is_complex_tensor (fst (snd x))"
  shows "\<exists>s'. create_outputs e k s i xs = (s', None)"
  using assms
proof (induction xs arbitrary: s i)
  case Nil
  then show ?case by simp
next
  case (Cons x xs)
  obtain n t v where x: "x = (n, t, v)" by (cases x)
  obtain nv where nv: "new_var e k s i n t v = Inr nv"
    using new_var_plain [of s t e k i n v] Cons.prems x by auto
  have "\<exists>s'. create_outputs e k (append_output s nv) (Suc i) xs = (s', None)"
    using Cons.prems by (intro Cons.IH) simp_all
  then show ?case using nv x by simp
qed

lemma tvi_first:
  assumes "output_vars s = None" and "type_inference k (inputs_of s) = Inr r"
      and "auto_val k s (as_tuple r) = Inr vals"
  shows "type_value_inference e k ow s =
     (case create_outputs e k (s\<lparr>output_vars := Some []\<rparr>) 0
             (zip (get_output_names k (as_tuple r)) (zip (as_tuple r) vals)) of
        (s', None) \<Rightarrow> Inr s' | (s', Some err) \<Rightarrow> Inl err)"
  using assms by (simp add: type_value_inference_def Let_def)

lemma tvi_again:
  assumes "output_vars s \<noteq> None" and "type_inference k (inputs_of s) = Inr r"
      and "auto_val k s (as_tuple r) = Inr vals"
  shows "type_value_inference e k ow s = check_outputs e ow s 0 (zip (as_tuple r) vals)"
  using assms by (auto simp: type_value_inference_def Let_def)

lemma tvi_type_error:
  "type_inference k (inputs_of s) = Inl err \<Longrightarrow> type_value_inference e k ow s = Inl err"
  by (simp add: type_value_inference_def)

text \<open>
  C1, as amended. When the accumulated bits contain one that the decorated
  \<^verbatim>\<open>value_inference\<close> does not allow, the wrapper raises \<^verbatim>\<open>NotImplementedError\<close>;
  \<^verbatim>\<open>_auto_val\<close> catches it and returns \<^verbatim>\<open>None\<close> for every output type without
  raising. A first inference then gives every output it creates no value; it raises only
  what type inference raises or what creating an output raises (a missing operation name,
  a list of too high a rank, complex data that is missing), and it succeeds when the
  operation has a name and no inferred type is a list or a complex tensor. A re-inference
  that overwrites the outputs succeeds when there are at least as many outputs as
  inferred types, and then every re-inferred output has no value; with fewer outputs it
  raises \<^verbatim>\<open>IndexError\<close>. A re-inference that keeps the outputs writes no value: the
  outputs keep the values they had; it raises only what type inference raises, the
  error of a changed output type, or \<^verbatim>\<open>IndexError\<close>, and it succeeds when there are
  enough outputs and every inferred type is compatible with the type of its output.
\<close>

theorem gate_unavailable_gives_unknown_values:
  assumes "value_inference k = Decorated allow func"
      and "classify s (input_types s) (False, False, False) = Inr (has_value, has_symbol, has_none)"
      and "(has_value \<and> allow AND VALUE = 0) \<or> (has_symbol \<and> allow AND SYMBOL = 0)
           \<or> (has_none \<and> allow AND NONE = 0)"
  shows "wrapper allow func s = Inl NotImplementedError
     \<and> auto_val k s output_types = Inr (replicate (length output_types) None)
     \<and> (output_vars s = None \<longrightarrow>
          (type_value_inference e k overwrite_output s = Inr s'
             \<longrightarrow> (\<forall>o' \<in> set (outputs s'). sym_val (heap s' o') = None))
          \<and> (type_value_inference e k overwrite_output s = Inl err
             \<longrightarrow> type_inference k (inputs_of s) = Inl err \<or> err = TypeError \<or> err = AttributeError
                  \<or> (\<exists>rank. err = ListRankUnsupported rank))
          \<and> (type_inference k (inputs_of s) = Inr r \<and> op_name s \<noteq> None
               \<and> (\<forall>t \<in> set (as_tuple r). \<not> is_list t \<and> \<not> is_complex_tensor t)
             \<longrightarrow> (\<exists>s1. type_value_inference e k overwrite_output s = Inr s1)))
     \<and> (output_vars s \<noteq> None \<and> type_inference k (inputs_of s) = Inr r \<longrightarrow>
          (length (as_tuple r) \<le> length (outputs s)
             \<longrightarrow> (\<exists>s1. type_value_inference e k True s = Inr s1 \<and> outputs s1 = outputs s
                    \<and> (\<forall>i < length (as_tuple r). sym_val (heap s1 (outputs s ! i)) = None)))
          \<and> (length (outputs s) < length (as_tuple r)
             \<longrightarrow> type_value_inference e k True s = Inl IndexError))
     \<and> (output_vars s \<noteq> None \<longrightarrow>
          (type_value_inference e k False s = Inr s'
             \<longrightarrow> outputs s' = outputs s \<and> (\<forall>v. sym_val (heap s' v) = sym_val (heap s v)))
          \<and> (type_value_inference e k False s = Inl err
             \<longrightarrow> type_inference k (inputs_of s) = Inl err \<or> err = IndexError
                  \<or> (\<exists>n. err = OutputTypeChanges n))
          \<and> (type_inference k (inputs_of s) = Inr r \<and> length (as_tuple r) \<le> length (outputs s)
               \<and> (\<forall>i < length (as_tuple r).
                     is_compatible_type e (as_tuple r ! i) (sym_type (heap s (outputs s ! i))))
             \<longrightarrow> (\<exists>s1. type_value_inference e k False s = Inr s1)))"
proof -
  have w: "wrapper allow func s = Inl NotImplementedError"
    using assms(2,3) by (auto simp: wrapper_def)
  then have c: "call_value_inference k s = Inl NotImplementedError"
    using assms(1) by (simp add: call_value_inference_def)
  then have av: "auto_val k s ts = Inr (replicate (length ts) None)" for ts
    by (simp add: auto_val_def map_replicate_const)
  define xs where "xs ts = zip ts (replicate (length ts) (None :: (mil_type \<times> pyval) option))"
    for ts :: "mil_type list"
  have none: "\<forall>x \<in> set (xs ts). snd x = None" for ts
    by (auto simp: xs_def dest!: set_zip_rightD)
  have len: "length (xs ts) = length ts" for ts by (simp add: xs_def)
  have fst_xs: "fst (xs ts ! i) = ts ! i" if "i < length ts" for ts i
    using that by (simp add: xs_def)
  have first: "(type_value_inference e k overwrite_output s = Inr s'
             \<longrightarrow> (\<forall>o' \<in> set (outputs s'). sym_val (heap s' o') = None))
          \<and> (type_value_inference e k overwrite_output s = Inl err
             \<longrightarrow> type_inference k (inputs_of s) = Inl err \<or> err = TypeError \<or> err = AttributeError
                  \<or> (\<exists>rank. err = ListRankUnsupported rank))
          \<and> (type_inference k (inputs_of s) = Inr r \<and> op_name s \<noteq> None
               \<and> (\<forall>t \<in> set (as_tuple r). \<not> is_list t \<and> \<not> is_complex_tensor t)
             \<longrightarrow> (\<exists>s1. type_value_inference e k overwrite_output s = Inr s1))"
    if ov: "output_vars s = None"
  proof (cases "type_inference k (inputs_of s)")
    case (Inl err')
    then show ?thesis by (simp add: tvi_type_error)
  next
    case (Inr r')
    define ys where "ys = zip (get_output_names k (as_tuple r')) (xs (as_tuple r'))"
    note t = tvi_first [OF ov Inr av, of e overwrite_output, folded xs_def, folded ys_def]
    have ynone: "\<forall>x \<in> set ys. snd (snd x) = None"
      using none [of "as_tuple r'"] by (auto simp: ys_def dest!: set_zip_rightD)
    obtain s2 res where run: "create_outputs e k (s\<lparr>output_vars := Some []\<rparr>) 0 ys = (s2, res)"
      by (cases "create_outputs e k (s\<lparr>output_vars := Some []\<rparr>) 0 ys")
    have unk: "\<forall>o' \<in> set (outputs s2). o' < next_var s2 \<and> sym_val_obj (heap s2 o') = None"
      by (rule create_outputs_all_unknown [OF run ynone]) (simp add: outputs_def)
    have 1: "\<forall>o' \<in> set (outputs s'). sym_val (heap s' o') = None"
      if "type_value_inference e k overwrite_output s = Inr s'"
      using that unk unfolding t run by (cases res) (auto simp: sym_val_def)
    have 2: "err = TypeError \<or> err = AttributeError \<or> (\<exists>rank. err = ListRankUnsupported rank)"
      if "type_value_inference e k overwrite_output s = Inl err"
    proof -
      from that have "res = Some err" unfolding t run by (cases res) auto
      with run create_outputs_errors show ?thesis by blast
    qed
    have 3: "\<exists>s1. type_value_inference e k overwrite_output s = Inr s1"
      if a: "type_inference k (inputs_of s) = Inr r \<and> op_name s \<noteq> None
               \<and> (\<forall>t \<in> set (as_tuple r). \<not> is_list t \<and> \<not> is_complex_tensor t)"
    proof -
      have rr: "r' = r" using a Inr by simp
      have "fst (snd x) \<in> set (as_tuple r)" if "x \<in> set ys" for x
      proof -
        obtain n t v where x: "x = (n, t, v)" by (cases x)
        with that have "(t, v) \<in> set (xs (as_tuple r))"
          unfolding ys_def rr by (auto dest: set_zip_rightD)
        then have "t \<in> set (as_tuple r)" unfolding xs_def by (rule set_zip_leftD)
        with x show ?thesis by simp
      qed
      then have "\<forall>x \<in> set ys. \<not> is_list (fst (snd x)) \<and> \<not> is_complex_tensor (fst (snd x))"
        using a by blast
      moreover have "op_name (s\<lparr>output_vars := Some []\<rparr>) \<noteq> None" using a by simp
      ultimately have "\<exists>s1. create_outputs e k (s\<lparr>output_vars := Some []\<rparr>) 0 ys = (s1, None)"
        by (intro create_outputs_plain)
      then show ?thesis unfolding t by auto
    qed
    show ?thesis using 1 2 3 by blast
  qed
  have over: "(length (as_tuple r) \<le> length (outputs s)
             \<longrightarrow> (\<exists>s1. type_value_inference e k True s = Inr s1 \<and> outputs s1 = outputs s
                    \<and> (\<forall>i < length (as_tuple r). sym_val (heap s1 (outputs s ! i)) = None)))
          \<and> (length (outputs s) < length (as_tuple r)
             \<longrightarrow> type_value_inference e k True s = Inl IndexError)"
    if a: "output_vars s \<noteq> None \<and> type_inference k (inputs_of s) = Inr r"
  proof -
    have t: "type_value_inference e k True s = check_outputs e True s 0 (xs (as_tuple r))"
      using tvi_again [OF _ _ av, of r e True] a by (simp add: xs_def)
    have 1: "\<exists>s1. type_value_inference e k True s = Inr s1 \<and> outputs s1 = outputs s
                    \<and> (\<forall>i < length (as_tuple r). sym_val (heap s1 (outputs s ! i)) = None)"
      if "length (as_tuple r) \<le> length (outputs s)"
      using check_outputs_None_overwrite [OF none, of 0 "as_tuple r" s e] that
      unfolding t by (auto simp: len sym_val_def)
    have 2: "type_value_inference e k True s = Inl IndexError"
      if "length (outputs s) < length (as_tuple r)"
      unfolding t using that by (intro check_outputs_None_overwrite_short none) (simp_all add: len)
    show ?thesis using 1 2 by blast
  qed
  have keep: "(type_value_inference e k False s = Inr s'
             \<longrightarrow> outputs s' = outputs s \<and> (\<forall>v. sym_val (heap s' v) = sym_val (heap s v)))
          \<and> (type_value_inference e k False s = Inl err
             \<longrightarrow> type_inference k (inputs_of s) = Inl err \<or> err = IndexError
                  \<or> (\<exists>n. err = OutputTypeChanges n))
          \<and> (type_inference k (inputs_of s) = Inr r \<and> length (as_tuple r) \<le> length (outputs s)
               \<and> (\<forall>i < length (as_tuple r).
                     is_compatible_type e (as_tuple r ! i) (sym_type (heap s (outputs s ! i))))
             \<longrightarrow> (\<exists>s1. type_value_inference e k False s = Inr s1))"
    if ov: "output_vars s \<noteq> None"
  proof (cases "type_inference k (inputs_of s)")
    case (Inl err')
    then show ?thesis by (simp add: tvi_type_error)
  next
    case (Inr r')
    have t: "type_value_inference e k False s = check_outputs e False s 0 (xs (as_tuple r'))"
      using tvi_again [OF ov Inr av, of e False] by (simp add: xs_def)
    have 1: "outputs s' = outputs s \<and> (\<forall>v. sym_val (heap s' v) = sym_val (heap s v))"
      if "type_value_inference e k False s = Inr s'"
      using markers_only_fields [OF check_outputs_keep_markers [OF that [unfolded t]]] by simp
    have 2: "err = IndexError \<or> (\<exists>n. err = OutputTypeChanges n)"
      if "type_value_inference e k False s = Inl err"
      using check_outputs_None_keep_error [OF that [unfolded t] none] .
    have 3: "\<exists>s1. type_value_inference e k False s = Inr s1"
      if a: "type_inference k (inputs_of s) = Inr r \<and> length (as_tuple r) \<le> length (outputs s)
               \<and> (\<forall>i < length (as_tuple r).
                     is_compatible_type e (as_tuple r ! i) (sym_type (heap s (outputs s ! i))))"
    proof -
      have rr: "r' = r" using a Inr by simp
      show ?thesis unfolding t rr
        using a by (intro check_outputs_None_keep_success none) (simp_all add: len fst_xs)
    qed
    show ?thesis using 1 2 3 by blast
  qed
  show ?thesis using w av first over keep by blast
qed

lemma rebind_to_symbolic:
  "validate_and_set_inputs plain_env add_done [(''x'', Some (BVar 4))] False = Inr add_done_symbolic"
proof -
  define H where "H = (heap add_done)
      (0 := (heap add_done 0)\<lparr>child_ops := child_ops (heap add_done 0) - {7}\<rparr>,
       4 := (heap add_done 4)\<lparr>child_ops := insert 7 (child_ops (heap add_done 4))\<rparr>)"
  define I where "I = (input_vars add_done)(''x'' := Some (BVar 4))"
  have v: "validate_and_set_inputs plain_env add_done [(''x'', Some (BVar 4))] False
      = Inr (add_done\<lparr>heap := H, input_vars := I\<rparr>)"
    unfolding H_def I_def
    by (simp add: bind_defs add_done_def add_inferred_def add_state_def req_tensor_def opt_tensor_def
        plain_env_def attached_def ex_heap_def mk_var_def Let_def)
  have h: "H = heap add_done_symbolic"
    unfolding H_def by (rule ext) (simp add: add_done_def add_done_symbolic_def ex_defs)
  have i: "I = input_vars add_done_symbolic"
    unfolding I_def by (rule ext) (simp add: add_done_def add_done_symbolic_def ex_defs)
  have "add_done\<lparr>heap := heap add_done_symbolic, input_vars := input_vars add_done_symbolic\<rparr>
      = add_done_symbolic"
    by (simp add: add_done_def add_done_symbolic_def add_inferred_def add_state_def)
  then show ?thesis unfolding v h i by simp
qed

lemma classify_done_symbolic:
  "classify add_done_symbolic (input_types add_done_symbolic) (False, False, False) = Inr (True, True, False)"
  by (simp add: add_done_symbolic_def ex_defs gate_defs)

lemma reinfer_done_symbolic:
  "type_value_inference plain_env add_kind False add_done_symbolic = Inr add_done_symbolic"
  by (simp add: add_done_symbolic_def ex_defs gate_defs infer_defs reinfer_output_def check_value_def
      mark_outputs_def set_nonreplaceable_vars_upstream_def)

lemma overwrite_done_symbolic:
  "type_value_inference plain_env add_kind True add_done_symbolic = Inr (add_inferred 4 1 None)"
  by (simp add: add_done_symbolic_def ex_defs gate_defs infer_defs reinfer_output_def check_value_def
      mark_outputs_def set_nonreplaceable_vars_upstream_def)

lemma ensure_done_symbolic: "ensure_required_inputs add_done_symbolic = Inr add_done_symbolic"
  by (simp add: add_done_symbolic_def ex_defs ensure_required_inputs_def)

text \<open>
  The claim as the specification states it fails: \<^verbatim>\<open>add_0\<close>, inferred on \<open>[1, 2]\<close>
  and \<open>[3, 4]\<close>, has the output value \<open>[4, 6]\<close>. Rebinding \<^verbatim>\<open>x\<close> to the Var
  \<open>4\<close>, whose value has an unresolved symbol, with inference succeeds; the gate of
  \<^verbatim>\<open>add\<close> allows materialized values only, so value inference is unavailable, and
  the re-inference leaves the output with its old value \<open>[4, 6]\<close>, not with an unknown
  one.
\<close>

theorem stale_value_counterexample:
  "value_inference add_kind = Decorated VALUE add_values
   \<and> sym_val (heap add_done 10) = Some (int_vec [4, 6])
   \<and> set_inputs plain_env add_kind False True [(''x'', Some (BVar 4))] add_done = Inr add_done_symbolic
   \<and> classify add_done_symbolic (input_types add_done_symbolic) (False, False, False)
       = Inr (True, True, False)
   \<and> VALUE AND SYMBOL = 0
   \<and> type_value_inference plain_env add_kind False add_done_symbolic = Inr add_done_symbolic
   \<and> outputs add_done_symbolic = [10]
   \<and> sym_val (heap add_done_symbolic 10) = Some (int_vec [4, 6])"
proof -
  have "set_inputs plain_env add_kind False True [(''x'', Some (BVar 4))] add_done = Inr add_done_symbolic"
    unfolding set_inputs_def rebind_to_symbolic
    by (simp add: reinfer_done_symbolic ensure_done_symbolic)
  then show ?thesis
    unfolding classify_done_symbolic reinfer_done_symbolic
    by (simp add: add_done_symbolic_def add_done_def add_inferred_def outputs_def sym_val_def
        add_kind_def VALUE_def SYMBOL_def)
qed

theorem gate_unavailable_gives_unknown_values_witness:
  "value_inference add_kind = Decorated VALUE add_values
   \<and> VALUE AND SYMBOL = 0
   \<and> classify (add_state 4 1) (input_types (add_state 4 1)) (False, False, False) = Inr (True, True, False)
   \<and> output_vars (add_state 4 1) = None
   \<and> wrapper VALUE add_values (add_state 4 1) = Inl NotImplementedError
   \<and> auto_val add_kind (add_state 4 1) [Tensor Int32 [Dim 2]] = Inr [None]
   \<and> type_value_inference plain_env add_kind False (add_state 4 1) = Inr (add_inferred 4 1 None)
   \<and> outputs (add_inferred 4 1 None) = [10]
   \<and> sym_val (heap (add_inferred 4 1 None) 10) = None
   \<and> classify add_done_symbolic (input_types add_done_symbolic) (False, False, False)
       = Inr (True, True, False)
   \<and> output_vars add_done_symbolic = Some [10]
   \<and> type_value_inference plain_env add_kind True add_done_symbolic = Inr (add_inferred 4 1 None)
   \<and> type_value_inference plain_env add_kind False add_done_symbolic = Inr add_done_symbolic
   \<and> sym_val (heap add_done_symbolic 10) = Some (int_vec [4, 6])"
proof -
  have k: "value_inference add_kind = Decorated VALUE add_values" by (simp add: add_kind_def)
  have b: "(True \<and> VALUE AND VALUE = 0) \<or> (True \<and> VALUE AND SYMBOL = 0) \<or> (False \<and> VALUE AND NONE = 0)"
    by (simp add: VALUE_def SYMBOL_def)
  note w1 = gate_unavailable_gives_unknown_values [OF k classify_add_4_1 b, of "[Tensor Int32 [Dim 2]]" plain_env False
      "add_inferred 4 1 None" NotImplementedError "Single (Tensor Int32 [Dim 2])"]
  note w2 = gate_unavailable_gives_unknown_values [OF k classify_done_symbolic b, of "[Tensor Int32 [Dim 2]]" plain_env False
      add_done_symbolic NotImplementedError "Single (Tensor Int32 [Dim 2])"]
  have o1: "output_vars (add_state 4 1) = None" by (simp add: add_state_def)
  have o2: "output_vars add_done_symbolic = Some [10]"
    by (simp add: add_done_symbolic_def add_inferred_def)
  have a1: "wrapper VALUE add_values (add_state 4 1) = Inl NotImplementedError"
    and a2: "auto_val add_kind (add_state 4 1) [Tensor Int32 [Dim 2]] = Inr [None]"
    using w1 by simp_all
  have f: "\<forall>o' \<in> set (outputs (add_inferred 4 1 None)). sym_val (heap (add_inferred 4 1 None) o') = None"
    using w1 o1 infer_add_4_1 by blast
  have os: "outputs (add_inferred 4 1 None) = [10]" by (simp add: add_inferred_def outputs_def)
  have f': "sym_val (heap (add_inferred 4 1 None) 10) = None" using f os by simp
  have vs: "VALUE AND SYMBOL = 0" by (simp add: VALUE_def SYMBOL_def)
  have ti: "type_inference add_kind (inputs_of add_done_symbolic) = Inr (Single (Tensor Int32 [Dim 2]))"
    by (simp add: add_done_symbolic_def ex_defs inputs_of_def)
  have "\<exists>s1. type_value_inference plain_env add_kind True add_done_symbolic = Inr s1
      \<and> outputs s1 = outputs add_done_symbolic
      \<and> (\<forall>i < length (as_tuple (Single (Tensor Int32 [Dim 2]))).
            sym_val (heap s1 (outputs add_done_symbolic ! i)) = None)"
    using w2 o2 ti by (simp add: outputs_def)
  then have g: "sym_val (heap (add_inferred 4 1 None) 10) = None"
    unfolding overwrite_done_symbolic by (simp add: outputs_def o2)
  have v: "sym_val (heap add_done_symbolic 10) = Some (int_vec [4, 6])"
    by (simp add: add_done_symbolic_def add_inferred_def sym_val_def)
  show ?thesis
    using k vs classify_add_4_1 o1 a1 a2 infer_add_4_1 os f' g classify_done_symbolic o2
      overwrite_done_symbolic reinfer_done_symbolic v
    by simp
qed

section \<open>Inferring a second time\<close>

subsection \<open>What a first inference creates\<close>

lemma new_var_fields:
  assumes "new_var e k s i n t v = Inr nv"
  shows "sym_type nv = t" and "sym_val_obj nv = None \<or> sym_val_obj nv = v"
  using assms
  by (cases t; auto simp: new_var_def Let_def split: if_splits option.splits prod.splits)+

lemma input_vars_append_output [simp]: "input_vars (append_output s v) = input_vars s"
  by (simp add: append_output_def)

lemma input_types_append_output [simp]: "input_types (append_output s v) = input_types s"
  by (simp add: append_output_def)

lemma upt_shift: "[n ..< n + length (x # xs)] = n # [Suc n ..< Suc n + length xs]"
proof -
  have "n < n + length (x # xs)" by simp
  from upt_conv_Cons [OF this] show ?thesis by (simp only: list.size add_Suc_right add_Suc add_0_right)
qed

lemma create_outputs_result:
  assumes "create_outputs e k s i xs = (s', None)"
  shows "outputs s' = outputs s @ [next_var s ..< next_var s + length xs]
     \<and> next_var s' = next_var s + length xs
     \<and> input_vars s' = input_vars s \<and> input_types s' = input_types s
     \<and> (\<forall>v < next_var s. heap s' v = heap s v)
     \<and> (\<forall>j < length xs. sym_type (heap s' (next_var s + j)) = fst (snd (xs ! j))
           \<and> (sym_val_obj (heap s' (next_var s + j)) = None
               \<or> sym_val_obj (heap s' (next_var s + j)) = snd (snd (xs ! j))))"
  using assms
proof (induction xs arbitrary: s i)
  case Nil
  then show ?case by simp
next
  case (Cons x xs)
  obtain n t v where x: "x = (n, t, v)" by (cases x)
  from Cons.prems x obtain nv where nv: "new_var e k s i n t v = Inr nv"
    and run: "create_outputs e k (append_output s nv) (Suc i) xs = (s', None)"
    by (auto split: sum.splits)
  note f = new_var_fields [OF nv]
  note ih = Cons.IH [OF run]
  have "[next_var s ..< next_var s + length (x # xs)]
      = next_var s # [Suc (next_var s) ..< Suc (next_var s) + length xs]"
    by (rule upt_shift)
  then have o: "outputs s' = outputs s @ [next_var s ..< next_var s + length (x # xs)]"
    using ih by simp
  have h0: "heap s' (next_var s) = nv"
    using ih by simp
  have later: "sym_type (heap s' (next_var s + j)) = fst (snd ((x # xs) ! j))
           \<and> (sym_val_obj (heap s' (next_var s + j)) = None
               \<or> sym_val_obj (heap s' (next_var s + j)) = snd (snd ((x # xs) ! j)))"
    if "j < length (x # xs)" for j
  proof (cases j)
    case 0
    then show ?thesis using h0 f x by simp
  next
    case (Suc j')
    then have "j' < length xs" using that by simp
    with ih have "sym_type (heap s' (Suc (next_var s) + j')) = fst (snd (xs ! j'))
           \<and> (sym_val_obj (heap s' (Suc (next_var s) + j')) = None
               \<or> sym_val_obj (heap s' (Suc (next_var s) + j')) = snd (snd (xs ! j')))"
      by simp
    then show ?thesis using Suc by simp
  qed
  have old: "heap s' v' = heap s v'" if "v' < next_var s" for v'
    using ih that by simp
  show ?case using o ih later old by simp
qed

subsection \<open>Comparing a value with itself\<close>

lemma ne_self: "ne x x \<longleftrightarrow> x = NaN"
  by (cases x) simp_all

lemma set_chunk: "c \<in> set (chunks d n xs) \<Longrightarrow> set c \<subseteq> set xs"
  by (auto simp: chunks_def dest!: in_set_takeD in_set_dropD)

lemma set_bcast: "set (bcast ds es xs) \<subseteq> set xs"
proof (induction ds es xs rule: bcast.induct)
  case (1 d ds e es xs)
  have "set (concat (map (bcast ds es) (chunks d (prod_list ds) xs))) \<subseteq> set xs"
    using 1 set_chunk by fastforce
  then show ?case by (auto simp: Let_def)
qed simp_all

lemma list_ex_ne_self: "list_ex (\<lambda>(x, y). ne x y) (zip l l) \<longleftrightarrow> NaN \<in> set l"
  by (induction l) (auto simp: ne_self)

lemma np_any_ne_self:
  assumes "NaN \<notin> set (entries x)"
  shows "np_any_ne x x = Inr False"
proof (cases x)
  case (Array sh xs)
  have "NaN \<notin> set (broadcast_to sh sh xs)"
    using assms Array set_bcast unfolding broadcast_to_def by fastforce
  then show ?thesis using Array by (simp add: broadcast_shapes_same list_ex_ne_self)
next
  case (PyList xs)
  then show ?thesis by simp
qed

subsection \<open>Re-inference of what the outputs hold\<close>

lemma check_value_same:
  assumes "sym_val_obj (heap s o') = None
           \<or> (sym_val_obj (heap s o') = v
               \<and> (\<forall>x. sym_val (heap s o') = Some x \<longrightarrow> NaN \<notin> set (entries x)))"
  shows "check_value False s o' v = Inr s"
proof (cases "sym_val_obj (heap s o')")
  case None
  then show ?thesis by (simp add: check_value_def sym_val_def split: option.splits)
next
  case (Some tv)
  obtain t x where tv: "tv = (t, x)" by (cases tv)
  have v: "v = Some (t, x)" and nn: "NaN \<notin> set (entries x)"
    using assms Some tv by (simp_all add: sym_val_def)
  show ?thesis
    using Some tv np_any_ne_self [OF nn]
    by (simp add: check_value_def v sym_val_def del: np_any_ne.simps)
qed

lemma check_outputs_same:
  assumes "i + length ys \<le> length (outputs s)"
      and "\<forall>j < length ys.
             is_compatible_type e (fst (ys ! j)) (sym_type (heap s (outputs s ! (i + j))))
             \<and> (sym_val_obj (heap s (outputs s ! (i + j))) = None
                 \<or> (sym_val_obj (heap s (outputs s ! (i + j))) = snd (ys ! j)
                     \<and> (\<forall>x. sym_val (heap s (outputs s ! (i + j))) = Some x \<longrightarrow> NaN \<notin> set (entries x))))"
  shows "\<exists>s'. check_outputs e False s i ys = Inr s'"
  using assms
proof (induction ys arbitrary: s i)
  case Nil
  then show ?case by simp
next
  case (Cons y ys)
  obtain t v where y: "y = (t, v)" by (cases y)
  note p0 = Cons.prems(2) [rule_format, of 0, simplified]
  have cv: "check_value False s (outputs s ! i) v = Inr s"
    using p0 y by (intro check_value_same) simp
  have step: "reinfer_output e False s i t v = Inr (mark_outputs e s)"
    using Cons.prems(1) p0 y cv by (simp add: reinfer_output_def Let_def)
  note m = markers_only_fields [OF markers_only_mark_outputs [of s e]]
  have "\<exists>s'. check_outputs e False (mark_outputs e s) (Suc i) ys = Inr s'"
  proof (rule Cons.IH)
    show "Suc i + length ys \<le> length (outputs (mark_outputs e s))"
      using Cons.prems(1) by (simp add: m)
    show "\<forall>j < length ys.
        is_compatible_type e (fst (ys ! j))
          (sym_type (heap (mark_outputs e s) (outputs (mark_outputs e s) ! (Suc i + j))))
        \<and> (sym_val_obj (heap (mark_outputs e s) (outputs (mark_outputs e s) ! (Suc i + j))) = None
            \<or> (sym_val_obj (heap (mark_outputs e s) (outputs (mark_outputs e s) ! (Suc i + j))) = snd (ys ! j)
                \<and> (\<forall>x. sym_val (heap (mark_outputs e s) (outputs (mark_outputs e s) ! (Suc i + j))) = Some x
                       \<longrightarrow> NaN \<notin> set (entries x))))"
      using Cons.prems(2) [rule_format, of "Suc j" for j] by (simp add: m)
  qed
  then show ?case using step y by simp
qed

subsection \<open>The inputs of the second inference\<close>

lemma classify_agree:
  assumes "input_vars s' = input_vars s"
      and "\<forall>n. \<forall>v \<in> set (bound_vars (input_vars s n)). heap s' v = heap s v"
  shows "classify s' its b = classify s its b"
proof (induction its arbitrary: b)
  case Nil
  show ?case by simp
next
  case (Cons it its)
  obtain n t where it: "it = (n, t)" by (cases it)
  have tup: "foldl (\<lambda>b' v. process (heap s' v) b') b vs = foldl (\<lambda>b' v. process (heap s v) b') b vs"
    if "input_vars s n = Some (BTuple vs)" for vs b
  proof -
    have "\<forall>v \<in> set vs. heap s' v = heap s v" using assms(2) [rule_format, of _ n] that by simp
    then show ?thesis by (induction vs arbitrary: b) simp_all
  qed
  have one: "heap s' v = heap s v" if "input_vars s n = Some (BVar v)" for v
    using assms(2) [rule_format, of v n] that by simp
  show ?case
    by (auto simp: it assms(1) Cons.IH tup one split: option.splits binding.splits)
qed

lemma inputs_of_agree:
  assumes "input_vars s' = input_vars s"
      and "\<forall>n. \<forall>v \<in> set (bound_vars (input_vars s n)). heap s' v = heap s v"
  shows "inputs_of s' = inputs_of s"
proof (rule ext)
  fix n
  show "inputs_of s' n = inputs_of s n"
  proof (cases "input_vars s n")
    case None
    then show ?thesis by (simp add: inputs_of_def assms(1))
  next
    case (Some b)
    have "view_binding (heap s') b = view_binding (heap s) b"
      using assms(2) [rule_format, of _ n] Some
      by (cases b) (simp_all add: view_var_def)
    then show ?thesis using Some by (simp add: inputs_of_def assms(1))
  qed
qed

lemma auto_val_agree:
  assumes "input_vars s' = input_vars s" and "input_types s' = input_types s"
      and "\<forall>n. \<forall>v \<in> set (bound_vars (input_vars s n)). heap s' v = heap s v"
  shows "auto_val k s' ts = auto_val k s ts"
proof -
  have "wrapper allow func s' = wrapper allow func s" for allow func
    unfolding wrapper_def assms(2) classify_agree [OF assms(1,3)] inputs_of_agree [OF assms(1,3)] ..
  note w = this
  have "call_value_inference k s' = call_value_inference k s"
    unfolding call_value_inference_def inputs_of_agree [OF assms(1,3)] w ..
  then show ?thesis by (simp add: auto_val_def)
qed

lemma create_outputs_output_vars:
  "create_outputs e k s i xs = (s', err) \<Longrightarrow> output_vars s \<noteq> None \<Longrightarrow> output_vars s' \<noteq> None"
proof (induction xs arbitrary: s i)
  case Nil
  then show ?case by simp
next
  case (Cons x xs)
  obtain n t v where x: "x = (n, t, v)" by (cases x)
  show ?case
  proof (cases "new_var e k s i n t v")
    case (Inl err')
    with Cons.prems x show ?thesis by simp
  next
    case (Inr nv)
    with Cons.prems x have "create_outputs e k (append_output s nv) (Suc i) xs = (s', err)" by simp
    then show ?thesis by (rule Cons.IH) (simp add: append_output_def)
  qed
qed

text \<open>
  C2, as amended. An operation without outputs is inferred, and the inference succeeds
  and creates an output for every inferred type. The bound inputs are Vars that exist
  already, the compatibility relation accepts the type of every output against itself,
  and no output value has an entry that is not a number. Then a second inference that
  keeps the outputs succeeds on the unchanged inputs, and it changes nothing but the
  markers: the outputs are the same Vars, with the same types and the same values.
\<close>

theorem reinference_is_idempotent:
  assumes "output_vars s = None"
      and "type_value_inference e k overwrite_output s = Inr s1"
      and "type_inference k (inputs_of s) = Inr r"
      and "length (outputs s1) = length (as_tuple r)"
      and "\<forall>n. \<forall>v \<in> set (bound_vars (input_vars s n)). v < next_var s"
      and "\<forall>o' \<in> set (outputs s1). is_compatible_type e (sym_type (heap s1 o')) (sym_type (heap s1 o'))"
      and "\<forall>o' \<in> set (outputs s1). \<forall>x. sym_val (heap s1 o') = Some x \<longrightarrow> NaN \<notin> set (entries x)"
  shows "\<exists>s2. type_value_inference e k False s1 = Inr s2 \<and> markers_only s1 s2
           \<and> outputs s2 = outputs s1
           \<and> (\<forall>o'. sym_type (heap s2 o') = sym_type (heap s1 o')
                  \<and> sym_val (heap s2 o') = sym_val (heap s1 o'))"
proof -
  define ts where "ts = as_tuple r"
  obtain vals where av: "auto_val k s ts = Inr vals"
    using assms(2,3) unfolding ts_def
    by (cases "auto_val k s (as_tuple r)") (simp_all add: type_value_inference_def)
  define ys where "ys = zip ts vals"
  define xs where "xs = zip (get_output_names k ts) ys"
  define s0 where "s0 = s\<lparr>output_vars := Some []\<rparr>"
  have first: "type_value_inference e k overwrite_output s =
      (case create_outputs e k s0 0 xs of (s', None) \<Rightarrow> Inr s' | (s', Some err) \<Rightarrow> Inl err)"
    unfolding s0_def xs_def ys_def ts_def
    by (rule tvi_first [OF assms(1,3) av [unfolded ts_def]])
  have run: "create_outputs e k s0 0 xs = (s1, None)"
    using assms(2) unfolding first
    by (cases "create_outputs e k s0 0 xs") (auto split: option.splits)
  note c = create_outputs_result [OF run]
  have nv0: "next_var s0 = next_var s" and o0: "outputs s0 = []"
    and iv0: "input_vars s0 = input_vars s" and it0: "input_types s0 = input_types s"
    and h0: "heap s0 = heap s"
    by (simp_all add: s0_def outputs_def)
  have outs: "outputs s1 = [next_var s ..< next_var s + length xs]"
    using c by (simp add: nv0 o0)
  have lx: "length xs = length ts" using assms(4) outs by (simp add: ts_def)
  have ly: "length ys = length ts"
  proof -
    have "length xs \<le> length ys" by (simp add: xs_def)
    moreover have "length ys \<le> length ts" by (simp add: ys_def)
    ultimately show ?thesis using lx by simp
  qed
  have xsj: "snd (xs ! j) = ys ! j" if "j < length ys" for j
    using that lx ly by (simp add: xs_def)
  have oj: "outputs s1 ! j = next_var s + j" if "j < length ys" for j
    using that lx ly by (simp add: outs)
  have cj: "\<forall>j < length xs. sym_type (heap s1 (next_var s + j)) = fst (snd (xs ! j))
           \<and> (sym_val_obj (heap s1 (next_var s + j)) = None
               \<or> sym_val_obj (heap s1 (next_var s + j)) = snd (snd (xs ! j)))"
    using c unfolding nv0 by blast
  have agree: "\<forall>n. \<forall>v \<in> set (bound_vars (input_vars s n)). heap s1 v = heap s v"
    using c assms(5) by (simp add: nv0 h0)
  have iv1: "input_vars s1 = input_vars s" and it1: "input_types s1 = input_types s"
    using c by (simp_all add: iv0 it0)
  have ti1: "type_inference k (inputs_of s1) = Inr r"
    using assms(3) by (simp add: inputs_of_agree [OF iv1 agree])
  have av1: "auto_val k s1 (as_tuple r) = Inr vals"
    using av by (simp add: auto_val_agree [OF iv1 it1 agree] ts_def)
  have ov1: "output_vars s1 \<noteq> None"
    by (rule create_outputs_output_vars [OF run]) (simp add: s0_def)
  have second: "type_value_inference e k False s1 = check_outputs e False s1 0 ys"
    unfolding ys_def ts_def by (rule tvi_again [OF ov1 ti1 av1])
  have "\<exists>s2. check_outputs e False s1 0 ys = Inr s2"
  proof (rule check_outputs_same)
    show "0 + length ys \<le> length (outputs s1)" using assms(4) ly by (simp add: ts_def)
    show "\<forall>j < length ys.
        is_compatible_type e (fst (ys ! j)) (sym_type (heap s1 (outputs s1 ! (0 + j))))
        \<and> (sym_val_obj (heap s1 (outputs s1 ! (0 + j))) = None
            \<or> (sym_val_obj (heap s1 (outputs s1 ! (0 + j))) = snd (ys ! j)
                \<and> (\<forall>x. sym_val (heap s1 (outputs s1 ! (0 + j))) = Some x \<longrightarrow> NaN \<notin> set (entries x))))"
    proof (intro allI impI)
      fix j
      assume j: "j < length ys"
      then have jx: "j < length xs" using lx ly by simp
      have mem: "outputs s1 ! j \<in> set (outputs s1)"
        using j assms(4) ly by (simp add: ts_def)
      have ty: "sym_type (heap s1 (outputs s1 ! j)) = fst (ys ! j)"
        unfolding oj [OF j] using cj jx xsj [OF j] by metis
      have vl: "sym_val_obj (heap s1 (outputs s1 ! j)) = None
          \<or> sym_val_obj (heap s1 (outputs s1 ! j)) = snd (ys ! j)"
        unfolding oj [OF j] using cj jx xsj [OF j] by metis
      have cp: "is_compatible_type e (fst (ys ! j)) (sym_type (heap s1 (outputs s1 ! j)))"
        using assms(6) mem ty by metis
      have nn: "\<forall>x. sym_val (heap s1 (outputs s1 ! j)) = Some x \<longrightarrow> NaN \<notin> set (entries x)"
        using assms(7) mem by blast
      show "is_compatible_type e (fst (ys ! j)) (sym_type (heap s1 (outputs s1 ! (0 + j))))
        \<and> (sym_val_obj (heap s1 (outputs s1 ! (0 + j))) = None
            \<or> (sym_val_obj (heap s1 (outputs s1 ! (0 + j))) = snd (ys ! j)
                \<and> (\<forall>x. sym_val (heap s1 (outputs s1 ! (0 + j))) = Some x \<longrightarrow> NaN \<notin> set (entries x))))"
        using cp vl nn by simp
    qed
  qed
  then obtain s2 where s2: "check_outputs e False s1 0 ys = Inr s2" by blast
  note m = markers_only_fields [OF check_outputs_keep_markers [OF s2]]
  show ?thesis
    using s2 second check_outputs_keep_markers [OF s2] m by simp
qed

lemma infer_nan:
  "type_value_inference plain_env nan_kind False pair_op = Inr nan_made"
  by (simp add: nan_kind_def nan_made_def pair_op_def type_value_inference_def inputs_of_def
      auto_val_def call_value_inference_def get_output_names_def new_var_def append_output_def
      outputs_def Let_def)

lemma reinfer_nan:
  "type_value_inference plain_env nan_kind False nan_made = Inl (ValueInferenceDiffers (Some ''pair_0''))"
  by (simp add: nan_kind_def nan_made_def pair_op_def type_value_inference_def inputs_of_def
      auto_val_def call_value_inference_def get_output_names_def reinfer_output_def check_value_def
      outputs_def sym_val_def plain_env_def broadcast_shapes_def broadcast_to_def chunks_def Let_def)

text \<open>
  The claim as the specification states it fails: the first inference of a constant
  whose value is the array holding the value that is not a number creates the output
  with that value; the second inference, on the same inputs, infers the same array,
  finds that it differs from the value of the output, since the entry differs from
  itself, and raises the error of a changed value.
\<close>

theorem not_a_number_counterexample:
  "output_vars pair_op = None
   \<and> type_value_inference plain_env nan_kind False pair_op = Inr nan_made
   \<and> inputs_of nan_made = inputs_of pair_op
   \<and> type_value_inference plain_env nan_kind False nan_made
       = Inl (ValueInferenceDiffers (Some ''pair_0''))"
  unfolding infer_nan reinfer_nan
  by (simp add: pair_op_def nan_made_def inputs_of_def)

lemma reinfer_add_done:
  "type_value_inference plain_env add_kind False add_done = Inr add_done"
  by (simp add: add_done_def ex_defs gate_defs infer_defs reinfer_output_def check_value_def
      mark_outputs_def set_nonreplaceable_vars_upstream_def broadcast_shapes_def broadcast_to_def
      chunks_def)

theorem reinference_is_idempotent_witness:
  "output_vars (add_state 0 1) = None
   \<and> type_value_inference plain_env add_kind False (add_state 0 1) = Inr add_done
   \<and> type_inference add_kind (inputs_of (add_state 0 1)) = Inr (Single (Tensor Int32 [Dim 2]))
   \<and> outputs add_done = [10]
   \<and> sym_val (heap add_done 10) = Some (int_vec [4, 6])
   \<and> is_compatible_type plain_env (sym_type (heap add_done 10)) (sym_type (heap add_done 10))
   \<and> type_value_inference plain_env add_kind False add_done = Inr add_done
   \<and> markers_only add_done add_done"
proof -
  have a1: "output_vars (add_state 0 1) = None" by (simp add: add_state_def)
  have a2: "type_value_inference plain_env add_kind False (add_state 0 1) = Inr add_done"
    unfolding add_done_def by (rule infer_add_0_1)
  have a3: "type_inference add_kind (inputs_of (add_state 0 1)) = Inr (Single (Tensor Int32 [Dim 2]))"
    by (simp add: ex_defs inputs_of_def)
  have os: "outputs add_done = [10]" by (simp add: add_done_def add_inferred_def outputs_def)
  have a4: "length (outputs add_done) = length (as_tuple (Single (Tensor Int32 [Dim 2])))"
    by (simp add: os)
  have a5: "\<forall>n. \<forall>v \<in> set (bound_vars (input_vars (add_state 0 1) n)). v < next_var (add_state 0 1)"
    by (simp add: add_state_def)
  have a6: "\<forall>o' \<in> set (outputs add_done).
      is_compatible_type plain_env (sym_type (heap add_done o')) (sym_type (heap add_done o'))"
    by (simp add: plain_env_def)
  have v: "sym_val (heap add_done 10) = Some (int_vec [4, 6])"
    by (simp add: add_done_def add_inferred_def sym_val_def)
  have a7: "\<forall>o' \<in> set (outputs add_done). \<forall>x. sym_val (heap add_done o') = Some x \<longrightarrow> NaN \<notin> set (entries x)"
    by (simp add: os v int_vec_def)
  from reinference_is_idempotent [OF a1 a2 a3 a4 a5 a6 a7]
  obtain s2 where s2: "type_value_inference plain_env add_kind False add_done = Inr s2"
    and m: "markers_only add_done s2" by blast
  have "s2 = add_done" using s2 by (simp add: reinfer_add_done)
  then show ?thesis using a1 a2 a3 os v s2 m by (simp add: plain_env_def)
qed

text \<open>
  The theorem asks for an output for every inferred type. A kind that names fewer
  outputs than it infers types gets fewer outputs, and its second inference, which
  looks for the output of every inferred type, raises \<^verbatim>\<open>IndexError\<close>.
\<close>

lemma short_names_reinference:
  "type_value_inference plain_env short_kind False pair_op = Inr short_made
   \<and> type_value_inference plain_env short_kind False short_made = Inl IndexError"
  by (simp add: short_kind_def short_made_def pair_op_def type_value_inference_def inputs_of_def
      auto_val_def call_value_inference_def get_output_names_def new_var_def append_output_def
      reinfer_output_def check_value_def mark_outputs_def set_nonreplaceable_vars_upstream_def
      outputs_def sym_val_def plain_env_def int_vec_def broadcast_shapes_def broadcast_to_def
      chunks_def Let_def)

end
